theory Spec2Isabelle
  imports Complex_Main
begin

section \<open>Python values shared by the modules\<close>

text \<open>
  Exceptions are values. Each constructor is one exception class that the modelled
  code raises or catches by name; the argument is what \<^verbatim>\<open>str(e)\<close> returns.
  \<^verbatim>\<open>GoFileAPIError\<close> and \<^verbatim>\<open>GoFileUploadError\<close> are subclasses of
  \<^verbatim>\<open>GoFileError\<close>; \<^verbatim>\<open>OSError\<close> stands for \<^verbatim>\<open>FileNotFoundError\<close> and
  \<^verbatim>\<open>PermissionError\<close>; \<^verbatim>\<open>OtherError\<close> is any other subclass of
  \<^verbatim>\<open>Exception\<close>.
\<close>

datatype exn =
    ValueError string
  | KeyError string
  | ZeroDivisionError
  | OSError string
  | RequestException string
  | GoFileError string
  | GoFileAPIError string
  | GoFileUploadError string
  | OtherError string

definition quoted :: "string \<Rightarrow> string" where
  "quoted s = CHR 0x27 # s @ [CHR 0x27]"

fun str_exn :: "exn \<Rightarrow> string" where
  "str_exn (ValueError m) = m"
| "str_exn (KeyError k) = quoted k"
| "str_exn ZeroDivisionError = ''division by zero''"
| "str_exn (OSError m) = m"
| "str_exn (RequestException m) = m"
| "str_exn (GoFileError m) = m"
| "str_exn (GoFileAPIError m) = m"
| "str_exn (GoFileUploadError m) = m"
| "str_exn (OtherError m) = m"

text \<open>\<^verbatim>\<open>except ValueError\<close> and \<^verbatim>\<open>except (GoFileError, GoFileAPIError, GoFileUploadError)\<close>.\<close>

fun is_ValueError :: "exn \<Rightarrow> bool" where
  "is_ValueError (ValueError m) = True"
| "is_ValueError e = False"

fun is_GoFileError :: "exn \<Rightarrow> bool" where
  "is_GoFileError (GoFileError m) = True"
| "is_GoFileError (GoFileAPIError m) = True"
| "is_GoFileError (GoFileUploadError m) = True"
| "is_GoFileError e = False"

text \<open>
  A Python \<^verbatim>\<open>dict\<close> keeps its keys in insertion order and the scheduler iterates
  over it, so a dict is an association list with distinct keys: a new key goes to the
  end, \<^verbatim>\<open>del d[k]\<close> takes the entry out.
\<close>

definition dict_contains :: "'k \<Rightarrow> ('k \<times> 'v) list \<Rightarrow> bool" where
  "dict_contains k d = (k \<in> set (map fst d))"

definition dict_del :: "'k \<Rightarrow> ('k \<times> 'v) list \<Rightarrow> ('k \<times> 'v) list" where
  "dict_del k d = filter (\<lambda>kv. fst kv \<noteq> k) d"

definition dict_get :: "'k \<Rightarrow> ('k \<times> 'v) list \<Rightarrow> 'v option" where
  "dict_get k d = map_of d k"


section \<open>config.py: the constants the modelled code reads\<close>

definition operation_cancelled :: string where
  "operation_cancelled = ''Operation cancelled by user''"

definition file_too_large :: string where
  "file_too_large = ''Error: File size exceeds the maximum limit''"

definition invalid_file_type :: string where
  "invalid_file_type = ''Error: File type not supported''"

definition upload_failed :: string where
  "upload_failed = ''Error: File upload failed''"

definition MAX_FILE_SIZE :: nat where
  "MAX_FILE_SIZE = 1024 * 1024 * 1024"

definition ALLOWED_EXTENSIONS :: "(string \<times> string list) list" where
  "ALLOWED_EXTENSIONS =
    [(''images'', [''jpg'', ''jpeg'', ''png'', ''gif'', ''bmp'', ''webp'', ''tiff'', ''ico'']),
     (''videos'', [''mp4'', ''avi'', ''mkv'', ''mov'', ''wmv'', ''flv'', ''webm'', ''m4v'']),
     (''documents'', [''pdf'', ''doc'', ''docx'', ''txt'', ''rtf'', ''odt'', ''xls'', ''xlsx'',
        ''ppt'', ''pptx'']),
     (''audio'', [''mp3'', ''wav'', ''ogg'', ''m4a'', ''flac'', ''aac'']),
     (''archives'', [''zip'', ''rar'', ''7z'', ''tar'', ''gz'', ''bz2'']),
     (''other'', [''apk'', ''exe'', ''iso'', ''img''])]"

definition PROGRESS_UPDATE_INTERVAL :: nat where
  "PROGRESS_UPDATE_INTERVAL = 1"

text \<open>\<^verbatim>\<open>MONITOR_SETTINGS\<close>: cooldown in seconds, sizes in bytes.\<close>

definition cooldown_period :: real where
  "cooldown_period = 5"

definition min_file_size :: nat where
  "min_file_size = 1024"

definition max_file_size :: nat where
  "max_file_size = 1024 * 1024 * 1024"


section \<open>scheduler.py: UploadScheduler\<close>

text \<open>
  A task is the dictionary stored under its id. The callback is opaque to the
  scheduler: it is a value of type \<open>'c\<close> that the environment runs. A
  \<^verbatim>\<open>datetime\<close> is an integer (microseconds), compared with \<open>\<le>\<close>.
\<close>

record ('c, 'a) task =
  scheduled_time :: int
  callback :: 'c
  args :: "'a list"
  kwargs :: "(string \<times> 'a) list"

text \<open>One constructor per call of the module's logger.\<close>

datatype sched_log =
    Task_scheduled string int
  | Schedule_failed string string
  | Task_cancelled string
  | Cancel_failed string string
  | Task_completed string
  | Task_failed string string

record ('c, 'a) UploadScheduler =
  scheduled_tasks :: "(string \<times> ('c, 'a) task) list"
  running :: bool
  logged :: "sched_log list"

definition schedule_upload ::
  "('c, 'a) UploadScheduler \<Rightarrow> string \<Rightarrow> int \<Rightarrow> 'c \<Rightarrow> 'a list \<Rightarrow> (string \<times> 'a) list
    \<Rightarrow> bool \<times> ('c, 'a) UploadScheduler" where
  "schedule_upload self task_id stime cb as kws =
    (if dict_contains task_id (scheduled_tasks self)
     then (False, self\<lparr>logged := logged self @
             [Schedule_failed task_id (''Task '' @ task_id @ '' already exists'')]\<rparr>)
     else (True, self\<lparr>scheduled_tasks := scheduled_tasks self @
             [(task_id, \<lparr>scheduled_time = stime, callback = cb, args = as, kwargs = kws\<rparr>)],
             logged := logged self @ [Task_scheduled task_id stime]\<rparr>))"

definition cancel_upload ::
  "('c, 'a) UploadScheduler \<Rightarrow> string \<Rightarrow> bool \<times> ('c, 'a) UploadScheduler" where
  "cancel_upload self task_id =
    (if \<not> dict_contains task_id (scheduled_tasks self)
     then (False, self\<lparr>logged := logged self @
             [Cancel_failed task_id (''Task '' @ task_id @ '' not found'')]\<rparr>)
     else (True, self\<lparr>scheduled_tasks := dict_del task_id (scheduled_tasks self),
             logged := logged self @ [Task_cancelled task_id]\<rparr>))"

definition get_task_info :: "('c, 'a) UploadScheduler \<Rightarrow> string \<Rightarrow> ('c, 'a) task option" where
  "get_task_info self task_id = dict_get task_id (scheduled_tasks self)"

text \<open>
  What awaiting a callback does: it returns, it raises an \<^verbatim>\<open>Exception\<close> (with
  its \<^verbatim>\<open>str\<close>), or the scheduler's asyncio task is cancelled while it waits
  (\<^verbatim>\<open>CancelledError\<close> is not an \<^verbatim>\<open>Exception\<close>). The environment function
  \<open>call\<close> runs a callback on the state \<open>'w\<close> of everything outside the scheduler;
  callbacks that call back into the same scheduler object are outside this model.
\<close>

datatype outcome = Returned | Raised string | AwaitCancelled

type_synonym ('c, 'a, 'w) caller =
  "'c \<Rightarrow> 'a list \<Rightarrow> (string \<times> 'a) list \<Rightarrow> 'w \<Rightarrow> outcome \<times> 'w"

text \<open>
  The body of \<^verbatim>\<open>for task_id, task in tasks_to_run\<close>: the \<^verbatim>\<open>del\<close> and the
  "completed" log line are inside the \<^verbatim>\<open>try\<close>, after the awaited callback. The
  boolean is False when \<^verbatim>\<open>CancelledError\<close> leaves the loop.
\<close>

definition run_task ::
  "('c, 'a, 'w) caller \<Rightarrow> string \<times> ('c, 'a) task \<Rightarrow> ('c, 'a) UploadScheduler \<times> 'w
    \<Rightarrow> bool \<times> ('c, 'a) UploadScheduler \<times> 'w" where
  "run_task call it sw =
    (let task_id = fst it; t = snd it; self = fst sw in
     case call (callback t) (args t) (kwargs t) (snd sw) of
       (Returned, w') \<Rightarrow>
         (if dict_contains task_id (scheduled_tasks self)
          then (True, self\<lparr>scheduled_tasks := dict_del task_id (scheduled_tasks self),
                  logged := logged self @ [Task_completed task_id]\<rparr>, w')
          else (True, self\<lparr>logged := logged self @
                  [Task_failed task_id (str_exn (KeyError task_id))]\<rparr>, w'))
     | (Raised msg, w') \<Rightarrow>
         (True, self\<lparr>logged := logged self @ [Task_failed task_id msg]\<rparr>, w')
     | (AwaitCancelled, w') \<Rightarrow> (False, self, w'))"

fun run_tasks ::
  "('c, 'a, 'w) caller \<Rightarrow> (string \<times> ('c, 'a) task) list \<Rightarrow> ('c, 'a) UploadScheduler \<times> 'w
    \<Rightarrow> bool \<times> ('c, 'a) UploadScheduler \<times> 'w" where
  "run_tasks call [] sw = (True, sw)"
| "run_tasks call (it # its) sw =
    (case run_task call it sw of
       (True, sw') \<Rightarrow> run_tasks call its sw'
     | (False, sw') \<Rightarrow> (False, sw'))"

text \<open>The snapshot \<^verbatim>\<open>tasks_to_run\<close> taken at \<^verbatim>\<open>current_time\<close>.\<close>

definition tasks_to_run ::
  "int \<Rightarrow> ('c, 'a) UploadScheduler \<Rightarrow> (string \<times> ('c, 'a) task) list" where
  "tasks_to_run current_time self =
    filter (\<lambda>it. scheduled_time (snd it) \<le> current_time) (scheduled_tasks self)"

text \<open>One pass of the \<^verbatim>\<open>while self.running\<close> loop, up to its sleep.\<close>

definition tick ::
  "('c, 'a, 'w) caller \<Rightarrow> int \<Rightarrow> ('c, 'a) UploadScheduler \<times> 'w
    \<Rightarrow> bool \<times> ('c, 'a) UploadScheduler \<times> 'w" where
  "tick call current_time sw = run_tasks call (tasks_to_run current_time (fst sw)) sw"

text \<open>
  \<^verbatim>\<open>_run_scheduler\<close>, observed over the clock readings of its successive passes:
  the loop ends when \<^verbatim>\<open>running\<close> is False or on \<^verbatim>\<open>CancelledError\<close>.
\<close>

fun run_scheduler ::
  "('c, 'a, 'w) caller \<Rightarrow> int list \<Rightarrow> ('c, 'a) UploadScheduler \<times> 'w
    \<Rightarrow> ('c, 'a) UploadScheduler \<times> 'w" where
  "run_scheduler call [] sw = sw"
| "run_scheduler call (current_time # later) sw =
    (if \<not> running (fst sw) then sw
     else case tick call current_time sw of
       (True, sw') \<Rightarrow> run_scheduler call later sw'
     | (False, sw') \<Rightarrow> sw')"

text \<open>The task a log line is about, and the log lines one pass writes.\<close>

fun log_task_id :: "sched_log \<Rightarrow> string" where
  "log_task_id (Task_scheduled k t) = k"
| "log_task_id (Schedule_failed k m) = k"
| "log_task_id (Task_cancelled k) = k"
| "log_task_id (Cancel_failed k m) = k"
| "log_task_id (Task_completed k) = k"
| "log_task_id (Task_failed k m) = k"

definition tick_log ::
  "('c, 'a, 'w) caller \<Rightarrow> int \<Rightarrow> ('c, 'a) UploadScheduler \<times> 'w \<Rightarrow> sched_log list" where
  "tick_log call current_time sw =
    drop (length (logged (fst sw))) (logged (fst (snd (tick call current_time sw))))"


section \<open>monitor.py: FileUploadHandler\<close>

text \<open>
  \<^verbatim>\<open>os.path.splitext(p)[1]\<close> for \<^verbatim>\<open>/\<close>-separated paths: the part of the last
  path component from its last dot on, empty when that component has no dot or only
  leading dots before it. \<^verbatim>\<open>str.lower\<close> on ASCII letters.
\<close>

definition basename :: "string \<Rightarrow> string" where
  "basename p = rev (takeWhile (\<lambda>c. c \<noteq> CHR ''/'') (rev p))"

definition splitext_ext :: "string \<Rightarrow> string" where
  "splitext_ext p =
    (let b = basename p;
         suffix = rev (takeWhile (\<lambda>c. c \<noteq> CHR ''.'') (rev b));
         stem = take (length b - length suffix - 1) b
     in if CHR ''.'' \<notin> set b then []
        else if filter (\<lambda>c. c \<noteq> CHR ''.'') stem = [] then []
        else CHR ''.'' # suffix)"

definition lower_char :: "char \<Rightarrow> char" where
  "lower_char c =
    (case map_of (zip ''ABCDEFGHIJKLMNOPQRSTUVWXYZ'' ''abcdefghijklmnopqrstuvwxyz'') c of
       Some l \<Rightarrow> l
     | None \<Rightarrow> c)"

definition lower :: "string \<Rightarrow> string" where
  "lower s = map lower_char s"

text \<open>
  What the operating system answers at one moment: \<^verbatim>\<open>os.path.exists\<close>,
  \<^verbatim>\<open>os.path.getsize\<close> (None when it raises), \<^verbatim>\<open>open(path, 'rb+')\<close>,
  \<^verbatim>\<open>time.time()\<close>, and what the awaited \<^verbatim>\<open>upload_callback\<close> does (None when
  it returns, the exception when it raises).
\<close>

datatype open_result = Opened | Open_IOError | Open_other_error

record os_env =
  path_exists :: "string \<Rightarrow> bool"
  getsize :: "string \<Rightarrow> nat option"
  open_rw :: "string \<Rightarrow> open_result"
  time_now :: real
  upload_callback :: "string \<Rightarrow> exn option"

text \<open>
  The handler's fields, the asyncio tasks \<^verbatim>\<open>on_created\<close> has created and that have
  not run yet (each a pending \<^verbatim>\<open>_process_file(path)\<close>), the paths
  \<^verbatim>\<open>upload_callback\<close> was called with, and the logged processing errors.
  \<^verbatim>\<open>asyncio.create_task\<close> is taken to succeed, that is, \<^verbatim>\<open>on_created\<close> runs
  where an event loop is running.
\<close>

record FileUploadHandler =
  allowed_extensions :: "string list"
  processing_files :: "string \<rightharpoonup> real"
  cooldown :: real
  process_tasks :: "string list"
  callback_calls :: "string list"
  processing_errors :: "(string \<times> string) list"

record fs_event =
  is_directory :: bool
  src_path :: string

definition is_valid_file :: "os_env \<Rightarrow> FileUploadHandler \<Rightarrow> string \<Rightarrow> bool" where
  "is_valid_file env self file_path =
    (let ext = lower (splitext_ext file_path) in
     if ext \<notin> set (allowed_extensions self) then False
     else case getsize env file_path of
            None \<Rightarrow> False
          | Some file_size \<Rightarrow>
              if file_size < min_file_size then False
              else if file_size > max_file_size then False
              else True)"

definition is_file_locked :: "os_env \<Rightarrow> FileUploadHandler \<Rightarrow> string \<Rightarrow> bool" where
  "is_file_locked env self file_path =
    (if (case processing_files self file_path of
           Some last_check \<Rightarrow> time_now env - last_check < cooldown self
         | None \<Rightarrow> False)
     then True
     else case open_rw env file_path of
            Opened \<Rightarrow> False
          | Open_IOError \<Rightarrow> True
          | Open_other_error \<Rightarrow> True)"

definition on_created :: "os_env \<Rightarrow> fs_event \<Rightarrow> FileUploadHandler \<Rightarrow> FileUploadHandler" where
  "on_created env event self =
    (if is_directory event then self
     else let file_path = src_path event in
       if \<not> is_valid_file env self file_path then self
       else if is_file_locked env self file_path then self
       else self\<lparr>processing_files := (processing_files self)(file_path \<mapsto> time_now env),
                 process_tasks := process_tasks self @ [file_path]\<rparr>)"

text \<open>
  \<^verbatim>\<open>_process_file\<close> from the moment its sleep is over; \<open>env\<close> is the operating
  system at that moment. The \<^verbatim>\<open>finally\<close> clause pops the entry on every path, and
  the task is over.
\<close>

definition process_file :: "os_env \<Rightarrow> FileUploadHandler \<Rightarrow> string \<Rightarrow> FileUploadHandler" where
  "process_file env self file_path =
    (let self' =
       (if \<not> path_exists env file_path \<or> \<not> is_valid_file env self file_path then self
        else if is_file_locked env self file_path then self
        else case upload_callback env file_path of
               None \<Rightarrow> self\<lparr>callback_calls := callback_calls self @ [file_path]\<rparr>
             | Some e \<Rightarrow>
                 self\<lparr>callback_calls := callback_calls self @ [file_path],
                      processing_errors := processing_errors self @ [(file_path, str_exn e)]\<rparr>)
     in self'\<lparr>processing_files := (processing_files self')(file_path := None),
              process_tasks := remove1 file_path (process_tasks self')\<rparr>)"


section \<open>database.py: the operations and stats tables\<close>

text \<open>A TinyDB table is the list of its documents, in insertion order.\<close>

record operation =
  operation_id :: string
  user_id :: int
  op_type :: string
  start_time :: string
  status :: string

definition add_operation :: "operation list \<Rightarrow> string \<Rightarrow> int \<Rightarrow> string \<Rightarrow> string \<Rightarrow> operation list" where
  "add_operation operations_tbl oid uid operation_type now_iso =
    operations_tbl @ [\<lparr>operation_id = oid, user_id = uid, op_type = operation_type,
                       start_time = now_iso, status = ''active''\<rparr>]"


definition update_operation_status :: "operation list \<Rightarrow> string \<Rightarrow> string \<Rightarrow> operation list" where
  "update_operation_status operations_tbl oid st =
    map (\<lambda>r. if operation_id r = oid then r\<lparr>status := st\<rparr> else r) operations_tbl"

definition get_active_operations :: "operation list \<Rightarrow> int option \<Rightarrow> operation list" where
  "get_active_operations operations_tbl uid =
    (case uid of
       None \<Rightarrow> operations_tbl
     | Some u \<Rightarrow> if u \<noteq> 0 then filter (\<lambda>r. user_id r = u) operations_tbl else operations_tbl)"

record stat =
  stat_user_id :: int
  uploads :: int
  stat_total_size :: int
  last_upload :: string

definition update_stats :: "stat list \<Rightarrow> int \<Rightarrow> int \<Rightarrow> string \<Rightarrow> stat list" where
  "update_stats stats_tbl uid file_size now_iso =
    (case filter (\<lambda>r. stat_user_id r = uid) stats_tbl of
       user_stats # _ \<Rightarrow>
         map (\<lambda>r. if stat_user_id r = uid
                   then r\<lparr>uploads := uploads user_stats + 1,
                          stat_total_size := stat_total_size user_stats + file_size,
                          last_upload := now_iso\<rparr>
                   else r) stats_tbl
     | [] \<Rightarrow> stats_tbl @ [\<lparr>stat_user_id = uid, uploads = 1, stat_total_size = file_size,
                            last_upload = now_iso\<rparr>])"

text \<open>The statuses recorded for one operation id.\<close>

definition recorded_status :: "operation list \<Rightarrow> string \<Rightarrow> string list" where
  "recorded_status operations_tbl oid =
    map status (filter (\<lambda>r. operation_id r = oid) operations_tbl)"



section \<open>The state main.py and gofile.py act on\<close>

text \<open>
  \<^verbatim>\<open>active_operations\<close> maps an operation id to its \<^verbatim>\<open>cancelled\<close> flag and user.
  The local file system maps a path to the bytes of the file; \<open>directories\<close> holds
  the names that are directories of the working directory (the \<^verbatim>\<open>downloads\<close>
  directory of the Telegram library, for one); \<open>protected\<close> holds the paths for
  which \<^verbatim>\<open>os.remove\<close> raises (a file the system keeps locked, a directory without
  write permission). \<open>progress_reports\<close> lists the calls of
  \<^verbatim>\<open>update_progress_message\<close> as (current, total); \<open>edits\<close> lists the texts the
  handlers put into the status message, from the first \<^verbatim>\<open>reply_text\<close> through every
  \<^verbatim>\<open>edit_text\<close>. Calls of the Telegram API are taken to return.
\<close>

record active_op =
  cancelled :: bool
  op_user_id :: int

record world =
  active_operations :: "string \<rightharpoonup> active_op"
  operations_table :: "operation list"
  stats_table :: "stat list"
  files :: "string \<rightharpoonup> string"
  directories :: "string set"
  protected :: "string set"
  progress_reports :: "(int \<times> int) list"
  edits :: "string list"

definition os_getsize :: "world \<Rightarrow> string \<Rightarrow> exn + nat" where
  "os_getsize w path =
    (case files w path of
       None \<Rightarrow> Inl (OSError (''No such file or directory: '' @ quoted path))
     | Some content \<Rightarrow> Inr (length content))"

definition os_remove :: "world \<Rightarrow> string \<Rightarrow> exn option \<times> world" where
  "os_remove w path =
    (case files w path of
       None \<Rightarrow> (Some (OSError (''No such file or directory: '' @ quoted path)), w)
     | Some content \<Rightarrow>
         if path \<in> protected w then (Some (OSError (''Permission denied: '' @ quoted path)), w)
         else (None, w\<lparr>files := (files w)(path := None)\<rparr>))"

text \<open>
  \<^verbatim>\<open>open(path, "wb")\<close> creates or truncates the file. It raises an
  \<^verbatim>\<open>OSError\<close> for the empty name, for a directory (\<^verbatim>\<open>.\<close>, \<^verbatim>\<open>..\<close>, the
  \<^verbatim>\<open>data\<close> directory that database.py creates when it is imported, every name in
  \<open>directories\<close>) and for a name longer than the 255 bytes a file name may have.
\<close>

definition cannot_open :: "world \<Rightarrow> string \<Rightarrow> bool" where
  "cannot_open w path =
    (path = [] \<or> path = ''.'' \<or> path = ''..'' \<or> path = ''data'' \<or> path \<in> directories w
     \<or> 255 < length path)"

definition open_wb :: "world \<Rightarrow> string \<Rightarrow> exn + world" where
  "open_wb w path =
    (if cannot_open w path then Inl (OSError (''Cannot open for writing: '' @ quoted path))
     else Inr (w\<lparr>files := (files w)(path \<mapsto> [])\<rparr>))"

definition file_write :: "world \<Rightarrow> string \<Rightarrow> string \<Rightarrow> world" where
  "file_write w path chunk =
    w\<lparr>files := (files w)(path \<mapsto> (case files w path of None \<Rightarrow> [] | Some old \<Rightarrow> old) @ chunk)\<rparr>"

definition edit_text :: "world \<Rightarrow> string \<Rightarrow> world" where
  "edit_text w t = w\<lparr>edits := edits w @ [t]\<rparr>"

text \<open>
  \<^verbatim>\<open>update_progress_message\<close> catches whatever \<^verbatim>\<open>edit_text\<close> raises, so it
  always returns; the model records the call.
\<close>

definition update_progress_message :: "int \<Rightarrow> int \<Rightarrow> world \<Rightarrow> world" where
  "update_progress_message current total_bytes w =
    w\<lparr>progress_reports := progress_reports w @ [(current, total_bytes)]\<rparr>"

text \<open>\<^verbatim>\<open>handle_cancel\<close>, for the operation id its callback data names.\<close>

definition handle_cancel :: "world \<Rightarrow> string \<Rightarrow> world" where
  "handle_cancel w oid =
    (case active_operations w oid of
       None \<Rightarrow> w
     | Some a \<Rightarrow>
         w\<lparr>active_operations := (active_operations w)(oid \<mapsto> a\<lparr>cancelled := True\<rparr>),
           edits := edits w @ [operation_cancelled]\<rparr>)"

text \<open>String helpers: \<^verbatim>\<open>str(n)\<close>, \<^verbatim>\<open>s.split(c)\<close>, \<^verbatim>\<open>p in s\<close>, \<^verbatim>\<open>s.lstrip('.')\<close>.\<close>

fun string_of_nat :: "nat \<Rightarrow> string" where
  "string_of_nat n =
    (if n < 10 then [''0123456789'' ! n]
     else string_of_nat (n div 10) @ [''0123456789'' ! (n mod 10)])"

definition string_of_int :: "int \<Rightarrow> string" where
  "string_of_int i = (if i < 0 then CHR ''-'' # string_of_nat (nat (- i)) else string_of_nat (nat i))"

fun split_on :: "char \<Rightarrow> string \<Rightarrow> string list" where
  "split_on c [] = [[]]"
| "split_on c (x # xs) =
    (if x = c then [] # split_on c xs
     else case split_on c xs of
            p # ps \<Rightarrow> (x # p) # ps
          | [] \<Rightarrow> [[x]])"

fun contains :: "string \<Rightarrow> string \<Rightarrow> bool" where
  "contains p [] = (p = [])"
| "contains p (x # xs) = (take (length p) (x # xs) = p \<or> contains p xs)"

definition lstrip_dots :: "string \<Rightarrow> string" where
  "lstrip_dots s = dropWhile (\<lambda>c. c = CHR ''.'') s"


section \<open>gofile.py\<close>

text \<open>
  The network as the code meets it. \<open>servers_reply\<close> is the list of server names in
  the answer of the servers endpoint, or the exception raised on the way to it.
  \<open>post_reply\<close> is what \<^verbatim>\<open>requests.post\<close> followed by \<^verbatim>\<open>raise_for_status\<close>
  gives for an upload URL, the file's bytes and the form data: a
  \<^verbatim>\<open>RequestException\<close>, or a response whose body is not JSON, is an empty JSON
  value, or is an object with its \<^verbatim>\<open>status\<close> and \<^verbatim>\<open>data\<close> entries when present.

  A response to \<^verbatim>\<open>session.get\<close> has its status, its Content-Length header,
  whether it carries a Content-Encoding that the HTTP library decodes, and its body:
  the decoded chunks the server sends before it closes the connection, a failure of
  the connection, and, in between, the clicks of the user on the cancel button.
\<close>

datatype json_body =
    Invalid_json
  | Json_empty
  | Json_object "string option" "(string \<times> string) list option"

datatype post_outcome = Post_raises string | Post_ok json_body

datatype length_header = No_header | Length_header nat | Bad_header string

datatype stream_event = Chunk string | Cancel_click | Stream_error string

record response =
  http_status :: int
  content_length :: length_header
  compressed :: bool
  body :: "stream_event list"

record net =
  http_get :: "string \<Rightarrow> exn + response"
  servers_reply :: "exn + string list"
  post_reply :: "string \<Rightarrow> string \<Rightarrow> (string \<times> string) list \<Rightarrow> post_outcome"
  now_iso :: string

definition get_server :: "net \<Rightarrow> exn + string" where
  "get_server n =
    (case servers_reply n of
       Inl e \<Rightarrow> Inl (GoFileAPIError ''Failed to get GoFile server'')
     | Inr [] \<Rightarrow> Inl (GoFileAPIError ''Failed to get GoFile server'')
     | Inr (name # _) \<Rightarrow> Inr name)"

definition form_data :: "string option \<Rightarrow> string option \<Rightarrow> (string \<times> string) list" where
  "form_data token folderId =
    (case token of None \<Rightarrow> [] | Some t \<Rightarrow> if t = [] then [] else [(''token'', t)]) @
    (case folderId of None \<Rightarrow> [] | Some f \<Rightarrow> if f = [] then [] else [(''folderId'', f)])"

text \<open>
  The \<^verbatim>\<open>try\<close> block of \<^verbatim>\<open>uploadFile\<close>. The removal of \<^verbatim>\<open>file_path\<close> comes
  right after the request, before the body is parsed; when it raises, that is logged
  and the function goes on.
\<close>

definition uploadFile_try ::
  "net \<Rightarrow> string \<Rightarrow> string option \<Rightarrow> string option \<Rightarrow> world
    \<Rightarrow> (exn + (string \<times> string) list) \<times> world" where
  "uploadFile_try n file_path token folderId w =
    (case get_server n of
       Inl e \<Rightarrow> (Inl e, w)
     | Inr server \<Rightarrow>
        (case files w file_path of
           None \<Rightarrow> (Inl (OSError (''No such file or directory: '' @ quoted file_path)), w)
         | Some content \<Rightarrow>
            (case post_reply n (''https://'' @ server @ ''.gofile.io/uploadFile'') content
                    (form_data token folderId) of
               Post_raises m \<Rightarrow> (Inl (RequestException m), w)
             | Post_ok response_body \<Rightarrow>
                (let w' = snd (os_remove w file_path) in
                 case response_body of
                   Invalid_json \<Rightarrow> (Inl (GoFileAPIError ''Invalid JSON response from GoFile''), w')
                 | Json_empty \<Rightarrow> (Inl (GoFileAPIError ''Empty response from GoFile''), w')
                 | Json_object st dat \<Rightarrow>
                    (case st of
                       None \<Rightarrow> (Inl (KeyError ''status''), w')
                     | Some s \<Rightarrow>
                         if s = ''ok''
                         then (case dat of
                                 None \<Rightarrow> (Inl (KeyError ''data''), w')
                               | Some d \<Rightarrow> (Inr d, w'))
                         else if contains ''error-'' s
                         then (Inl (GoFileAPIError
                                 (''GoFile API error: '' @ split_on CHR ''-'' s ! 1)), w')
                         else (Inl (GoFileAPIError
                                 (''Unknown GoFile API response: '' @ s)), w'))))))"

text \<open>
  The \<^verbatim>\<open>except\<close> clauses of \<^verbatim>\<open>uploadFile\<close>: a \<^verbatim>\<open>RequestException\<close> becomes a
  \<^verbatim>\<open>GoFileUploadError\<close>, every other \<^verbatim>\<open>Exception\<close> raised in the block, the
  block's own \<^verbatim>\<open>GoFileAPIError\<close> included, becomes a \<^verbatim>\<open>GoFileError\<close>.
\<close>

definition uploadFile ::
  "net \<Rightarrow> string \<Rightarrow> string option \<Rightarrow> string option \<Rightarrow> world
    \<Rightarrow> (exn + (string \<times> string) list) \<times> world" where
  "uploadFile n file_path token folderId w =
    (case uploadFile_try n file_path token folderId w of
       (Inr d, w') \<Rightarrow> (Inr d, w')
     | (Inl e, w') \<Rightarrow>
         (case e of
            RequestException m \<Rightarrow> (Inl (GoFileUploadError (''Upload request failed: '' @ m)), w')
          | _ \<Rightarrow> (Inl (GoFileError (''Upload failed: '' @ str_exn e)), w')))"

text \<open>\<^verbatim>\<open>parse_upload_command\<close> on \<^verbatim>\<open>parts = command.split()\<close>.\<close>

definition parse_upload_command ::
  "string list \<Rightarrow> exn + (string option \<times> string option \<times> string option)" where
  "parse_upload_command parts =
    (if length parts = 1 then Inr (None, None, None)
     else if length parts = 2 then Inr (Some (parts ! 1), None, None)
     else if length parts = 3 then Inr (Some (parts ! 1), Some (parts ! 2), None)
     else Inl (ValueError ''Invalid upload command format''))"



section \<open>main.py\<close>

definition validate_file_size :: "world \<Rightarrow> string \<Rightarrow> bool" where
  "validate_file_size w file_path =
    (case os_getsize w file_path of
       Inl e \<Rightarrow> False
     | Inr n \<Rightarrow> n \<le> MAX_FILE_SIZE)"

definition validate_file_type :: "string \<Rightarrow> bool" where
  "validate_file_type file_path =
    (let ext = lstrip_dots (lower (splitext_ext file_path)) in
     list_ex (\<lambda>exts. ext \<in> set exts) (map snd ALLOWED_EXTENSIONS))"

text \<open>
  What \<^verbatim>\<open>response.content.iter_chunked\<close> hands to the loop. When the response has a
  Content-Length and no Content-Encoding, the HTTP library reads exactly that many
  bytes of the body: it stops there, and it raises \<^verbatim>\<open>ClientPayloadError\<close> when the
  connection ends before. With a Content-Encoding the header counts the encoded bytes
  and the loop receives the decoded ones; without a header the body is read to its end.
\<close>

fun limit_body :: "nat \<Rightarrow> stream_event list \<Rightarrow> stream_event list" where
  "limit_body remaining [] =
    (if remaining = 0 then [] else [Stream_error ''Response payload is not completed''])"
| "limit_body remaining (Cancel_click # events) = Cancel_click # limit_body remaining events"
| "limit_body remaining (Stream_error m # events) = [Stream_error m]"
| "limit_body remaining (Chunk chunk # events) =
    (if remaining = 0 then []
     else if length chunk \<le> remaining
     then Chunk chunk # limit_body (remaining - length chunk) events
     else [Chunk (take remaining chunk)])"

definition iter_chunked :: "response \<Rightarrow> stream_event list" where
  "iter_chunked resp =
    (case content_length resp of
       Length_header l \<Rightarrow> if compressed resp then body resp else limit_body l (body resp)
     | _ \<Rightarrow> body resp)"

text \<open>
  The \<^verbatim>\<open>async for chunk in response.content.iter_chunked(8192)\<close> loop, run over what
  happens while it waits: the next chunk arrives, the stream raises, or the user
  clicks the cancel button and \<^verbatim>\<open>handle_cancel\<close> runs. For each chunk the flag is
  read first; then the chunk is written, \<^verbatim>\<open>downloaded / total_size\<close> is computed and
  \<^verbatim>\<open>update_progress_message\<close> is called. No clock is read.
\<close>

fun download_chunks ::
  "string \<Rightarrow> string \<Rightarrow> int \<Rightarrow> stream_event list \<Rightarrow> nat \<Rightarrow> world \<Rightarrow> exn option \<times> world" where
  "download_chunks oid media total_size [] downloaded w = (None, w)"
| "download_chunks oid media total_size (Cancel_click # events) downloaded w =
    download_chunks oid media total_size events downloaded (handle_cancel w oid)"
| "download_chunks oid media total_size (Chunk chunk # events) downloaded w =
    (case active_operations w oid of
       None \<Rightarrow> (Some (KeyError oid), w)
     | Some a \<Rightarrow>
         if cancelled a
         then (if files w media \<noteq> None
               then (case os_remove w media of
                       (Some e, w') \<Rightarrow> (Some e, w')
                     | (None, w') \<Rightarrow> (Some (ValueError operation_cancelled), w'))
               else (Some (ValueError operation_cancelled), w))
         else (let w' = file_write w media chunk;
                   downloaded' = downloaded + length chunk
               in if total_size = 0 then (Some ZeroDivisionError, w')
                  else download_chunks oid media total_size events downloaded'
                         (update_progress_message (int downloaded') total_size w')))"
| "download_chunks oid media total_size (Stream_error m # events) downloaded w =
    (Some (OtherError m), w)"

text \<open>
  The other branch downloads from Telegram in a task of its own and polls every 0.1 s.
  While the task is not done the loop wakes up and reads the flag, the user clicks
  cancel, or the library calls the progress callback; when the events are over the
  task is done, with an exception or with the path and bytes of the file it wrote.
\<close>

datatype tg_event = Tg_poll | Tg_cancel_click | Tg_progress int int

record tg_message =
  download_events :: "tg_event list"
  download_result :: "exn + (string \<times> string)"

fun tg_wait :: "string \<Rightarrow> tg_event list \<Rightarrow> world \<Rightarrow> exn option \<times> world" where
  "tg_wait oid [] w = (None, w)"
| "tg_wait oid (Tg_poll # events) w =
    (case active_operations w oid of
       None \<Rightarrow> (Some (KeyError oid), w)
     | Some a \<Rightarrow>
         if cancelled a then (Some (ValueError operation_cancelled), w)
         else tg_wait oid events w)"
| "tg_wait oid (Tg_cancel_click # events) w = tg_wait oid events (handle_cancel w oid)"
| "tg_wait oid (Tg_progress current total_bytes # events) w =
    tg_wait oid events (update_progress_message current total_bytes w)"

definition download_with_progress ::
  "net \<Rightarrow> string \<Rightarrow> string option \<Rightarrow> tg_message option \<Rightarrow> world \<Rightarrow> (exn + string) \<times> world" where
  "download_with_progress n oid url reply_message w =
    (if url \<noteq> None \<and> url \<noteq> Some []
     then (case http_get n (the url) of
             Inl e \<Rightarrow> (Inl e, w)
           | Inr resp \<Rightarrow>
               if http_status resp \<noteq> 200
               then (Inl (ValueError (''Failed to download: HTTP '' @
                            string_of_int (http_status resp))), w)
               else (case content_length resp of
                       Bad_header h \<Rightarrow>
                         (Inl (ValueError (''invalid literal for int() with base 10: '' @
                                  quoted h)), w)
                     | hdr \<Rightarrow>
                        (let total_size = (case hdr of Length_header l \<Rightarrow> int l | _ \<Rightarrow> 0);
                             media = last (split_on CHR ''/'' (the url))
                         in case open_wb w media of
                              Inl e \<Rightarrow> (Inl e, w)
                            | Inr w1 \<Rightarrow>
                               (case download_chunks oid media total_size (iter_chunked resp) 0 w1 of
                                  (Some e, w2) \<Rightarrow> (Inl e, w2)
                                | (None, w2) \<Rightarrow> (Inr media, w2)))))
     else (case reply_message of
             None \<Rightarrow> (Inl (ValueError ''No message to download from''), w)
           | Some r \<Rightarrow>
              (case tg_wait oid (download_events r) w of
                 (Some e, w1) \<Rightarrow> (Inl e, w1)
               | (None, w1) \<Rightarrow>
                  (case download_result r of
                     Inl e \<Rightarrow>
                       (case active_operations w1 oid of
                          None \<Rightarrow> (Inl (KeyError oid), w1)
                        | Some a \<Rightarrow>
                            if cancelled a then (Inl (ValueError operation_cancelled), w1)
                            else (Inl e, w1))
                   | Inr (path, content) \<Rightarrow>
                       (Inr path, w1\<lparr>files := (files w1)(path \<mapsto> content)\<rparr>)))))"

definition upload_with_progress ::
  "net \<Rightarrow> string \<Rightarrow> string \<Rightarrow> string option \<Rightarrow> string option \<Rightarrow> world
    \<Rightarrow> (exn + (string \<times> string) list) \<times> world" where
  "upload_with_progress n file_path oid token folderId w =
    (case os_getsize w file_path of
       Inl e \<Rightarrow> (Inl e, w)
     | Inr n0 \<Rightarrow>
        (let w1 = update_progress_message 0 (int n0) w in
         case uploadFile n file_path token folderId w1 of
           (Inl e, w2) \<Rightarrow> (Inl e, w2)
         | (Inr resp, w2) \<Rightarrow>
            (case os_getsize w2 file_path of
               Inl e \<Rightarrow> (Inl e, w2)
             | Inr n1 \<Rightarrow> (Inr resp, update_progress_message (int n1) (int n1) w2))))"

text \<open>The incoming \<^verbatim>\<open>/upload\<close> message: \<^verbatim>\<open>text.split()\<close>, the sender, the replied-to message.\<close>

record update =
  text_parts :: "string list"
  from_user :: int
  reply_to_message :: "tg_message option"

text \<open>\<^verbatim>\<open>handle_upload\<close>, lines 331 to 344: the operation is registered and recorded.\<close>

definition begin_upload :: "net \<Rightarrow> update \<Rightarrow> string \<Rightarrow> world \<Rightarrow> world" where
  "begin_upload n upd oid w =
    edit_text
      (w\<lparr>active_operations :=
            (active_operations w)(oid \<mapsto> \<lparr>cancelled = False, op_user_id = from_user upd\<rparr>),
         operations_table :=
            add_operation (operations_table w) oid (from_user upd) ''upload'' (now_iso n)\<rparr>)
      ''`Processing...`''"

text \<open>
  Lines 347 to 370: the command is parsed, the file is downloaded and the flag is read
  once more; the inner \<^verbatim>\<open>except ValueError\<close> lets the cancellation message through
  and prefixes every other one.
\<close>

definition upload_download ::
  "net \<Rightarrow> update \<Rightarrow> string \<Rightarrow> world
    \<Rightarrow> (exn + (string \<times> string option \<times> string option)) \<times> world" where
  "upload_download n upd oid w =
    (case parse_upload_command (text_parts upd) of
       Inl e \<Rightarrow> (Inl e, w)
     | Inr (url, token, folderId) \<Rightarrow>
        (case download_with_progress n oid url (reply_to_message upd)
                (edit_text w ''`Downloading...`'') of
           (Inl e, w') \<Rightarrow>
             (case e of
                ValueError m \<Rightarrow>
                  if m = operation_cancelled then (Inl (ValueError m), w')
                  else (Inl (ValueError (''Download failed: '' @ m)), w')
              | _ \<Rightarrow> (Inl e, w'))
         | (Inr media, w') \<Rightarrow>
             (case active_operations w' oid of
                None \<Rightarrow> (Inl (KeyError oid), w')
              | Some a \<Rightarrow>
                  if cancelled a then (Inl (ValueError operation_cancelled), w')
                  else (Inr (media, token, folderId), w'))))"

text \<open>
  The result message is built line by line from six entries of the response, each
  between a label and a closing backquote; a missing entry raises \<^verbatim>\<open>KeyError\<close>.
\<close>

fun result_text :: "(string \<times> string) list \<Rightarrow> (string \<times> string) list \<Rightarrow> exn + string" where
  "result_text [] resp = Inr []"
| "result_text (line # rest) resp =
    (case map_of resp (snd line) of
       None \<Rightarrow> Inl (KeyError (snd line))
     | Some v \<Rightarrow>
        (case result_text rest resp of
           Inl e \<Rightarrow> Inl e
         | Inr t \<Rightarrow> Inr (fst line @ v @ ''`'' @ (if rest = [] then [] else [CHR 0x0A]) @ t)))"

definition result_lines :: "(string \<times> string) list" where
  "result_lines =
    [(''**File Name:** `'', ''name''),
     (''**File ID:** `'', ''id''),
     (''**Parent Folder Code:** `'', ''parentFolderCode''),
     (''**Guest Token:** `'', ''guestToken''),
     (''**md5:** `'', ''md5''),
     (''**Download Page:** `'', ''downloadPage'')]"

text \<open>The \<^verbatim>\<open>try\<close> block, lines 347 to 434; the exception that leaves it, if any.\<close>

definition upload_body :: "net \<Rightarrow> update \<Rightarrow> string \<Rightarrow> world \<Rightarrow> exn option \<times> world" where
  "upload_body n upd oid w =
    (case upload_download n upd oid w of
       (Inl e, w1) \<Rightarrow> (Some e, w1)
     | (Inr (media, token, folderId), w1) \<Rightarrow>
        (let w2 = edit_text w1 ''`Downloaded Successfully`'' in
         if \<not> validate_file_size w2 media then (Some (ValueError file_too_large), w2)
         else if \<not> validate_file_type media then (Some (ValueError invalid_file_type), w2)
         else
          (case upload_with_progress n media oid token folderId
                  (edit_text w2 ''`Uploading...`'') of
             (Inl e, w3) \<Rightarrow>
               (Some (if is_GoFileError e then ValueError (''Upload failed: '' @ str_exn e)
                      else e), w3)
           | (Inr resp, w3) \<Rightarrow>
              (case os_getsize w3 media of
                 Inl e \<Rightarrow> (Some e, w3)
               | Inr n1 \<Rightarrow>
                  (let w4 = w3\<lparr>stats_table :=
                                 update_stats (stats_table w3) (from_user upd) (int n1) (now_iso n)\<rparr>;
                       w5 = edit_text w4 ''`Uploaded Successfully`'';
                       w6 = snd (os_remove w5 media)
                   in case result_text result_lines resp of
                        Inl e \<Rightarrow> (Some e, w6)
                      | Inr t \<Rightarrow>
                          (None, (edit_text w6 t)\<lparr>operations_table :=
                             update_operation_status (operations_table w6) oid ''completed''\<rparr>))))))"

text \<open>The two \<^verbatim>\<open>except\<close> clauses, lines 436 to 444.\<close>

definition upload_handlers :: "string \<Rightarrow> exn option \<times> world \<Rightarrow> world" where
  "upload_handlers oid r =
    (case fst r of
       None \<Rightarrow> snd r
     | Some e \<Rightarrow>
         if is_ValueError e
         then (edit_text (snd r) (str_exn e))\<lparr>operations_table :=
                 update_operation_status (operations_table (snd r)) oid ''failed''\<rparr>
         else (edit_text (snd r) upload_failed)\<lparr>operations_table :=
                 update_operation_status (operations_table (snd r)) oid ''failed''\<rparr>)"

text \<open>\<^verbatim>\<open>handle_upload\<close> up to its \<^verbatim>\<open>finally\<close> clause, and the whole of it.\<close>

definition handle_upload_try :: "net \<Rightarrow> update \<Rightarrow> string \<Rightarrow> world \<Rightarrow> world" where
  "handle_upload_try n upd oid w =
    upload_handlers oid (upload_body n upd oid (begin_upload n upd oid w))"




text \<open>
  The chunks a stream delivers before it ends or raises, and the total size the
  download loop divides by.
\<close>

fun chunks_of :: "stream_event list \<Rightarrow> string list" where
  "chunks_of [] = []"
| "chunks_of (Chunk c # events) = c # chunks_of events"
| "chunks_of (Cancel_click # events) = chunks_of events"
| "chunks_of (Stream_error m # events) = []"

text \<open>The first thing a stream gives to the loop, clicks of the user aside.\<close>

fun first_delivery :: "stream_event list \<Rightarrow> stream_event option" where
  "first_delivery [] = None"
| "first_delivery (Cancel_click # events) = first_delivery events"
| "first_delivery (Chunk c # events) = Some (Chunk c)"
| "first_delivery (Stream_error m # events) = Some (Stream_error m)"

definition header_total :: "response \<Rightarrow> int" where
  "header_total resp = (case content_length resp of Length_header l \<Rightarrow> int l | _ \<Rightarrow> 0)"



section \<open>Example inputs\<close>

text \<open>
  A scheduler with three tasks, two of them due at time 10: the callback of
  \<open>bad\<close> raises, the callback of \<open>good\<close> returns. The outside state lists the
  callbacks that ran.
\<close>

definition demo_call :: "(nat, unit, nat list) caller" where
  "demo_call c as kws w = (if c = 0 then (Raised ''boom'', w @ [c]) else (Returned, w @ [c]))"

definition demo_scheduler :: "(nat, unit) UploadScheduler" where
  "demo_scheduler =
    \<lparr>scheduled_tasks =
       [(''bad'', \<lparr>scheduled_time = 5, callback = 0, args = [], kwargs = []\<rparr>),
        (''good'', \<lparr>scheduled_time = 7, callback = 1, args = [], kwargs = []\<rparr>),
        (''later'', \<lparr>scheduled_time = 99, callback = 2, args = [], kwargs = []\<rparr>)],
     running = True, logged = []\<rparr>"


text \<open>
  A handler that accepts \<^verbatim>\<open>.txt\<close> files, a creation event, and the operating
  system as a function of the file's size, the result of opening it and the clock.
  \<open>demo_pending\<close> is the handler after a 2 KiB file was detected at time 100.
\<close>

definition demo_handler :: FileUploadHandler where
  "demo_handler =
    \<lparr>allowed_extensions = [''.txt''], processing_files = Map.empty, cooldown = cooldown_period,
     process_tasks = [], callback_calls = [], processing_errors = []\<rparr>"

definition demo_event :: fs_event where
  "demo_event = \<lparr>is_directory = False, src_path = ''/watch/notes.txt''\<rparr>"

definition demo_os :: "nat \<Rightarrow> open_result \<Rightarrow> real \<Rightarrow> os_env" where
  "demo_os file_size opening t =
    \<lparr>path_exists = (\<lambda>p. True), getsize = (\<lambda>p. Some file_size), open_rw = (\<lambda>p. opening),
     time_now = t, upload_callback = (\<lambda>p. None)\<rparr>"

definition demo_pending :: FileUploadHandler where
  "demo_pending = on_created (demo_os 2048 Opened 100) demo_event demo_handler"


text \<open>
  An \<^verbatim>\<open>/upload\<close> of \<^verbatim>\<open>http://host/a/b.txt\<close> by user 7 under the operation id
  \<open>op1\<close>, in a world with no files, where \<open>locked\<close> are the paths the operating
  system refuses to remove. The server answers 200 with the given Content-Length and
  body, without a Content-Encoding; the hosting backend answers the upload with the
  given JSON body.
\<close>

definition demo_world :: "string set \<Rightarrow> world" where
  "demo_world locked =
    \<lparr>active_operations = Map.empty, operations_table = [], stats_table = [], files = Map.empty,
     directories = {''downloads''}, protected = locked, progress_reports = [], edits = []\<rparr>"

definition demo_payload :: "(string \<times> string) list" where
  "demo_payload =
    [(''name'', ''b.txt''), (''id'', ''f1''), (''parentFolderCode'', ''c1''),
     (''guestToken'', ''g1''), (''md5'', ''m1''), (''downloadPage'', ''https://gofile.io/d/c1'')]"

definition demo_net :: "length_header \<Rightarrow> stream_event list \<Rightarrow> json_body \<Rightarrow> net" where
  "demo_net hdr events reply =
    \<lparr>http_get = (\<lambda>u. Inr \<lparr>http_status = 200, content_length = hdr, compressed = False,
                             body = events\<rparr>),
     servers_reply = Inr [''store1''],
     post_reply = (\<lambda>u c d. Post_ok reply),
     now_iso = ''2024-01-01T00:00:00''\<rparr>"

definition demo_update :: update where
  "demo_update =
    \<lparr>text_parts = [''/upload'', ''http://host/a/b.txt''], from_user = 7, reply_to_message = None\<rparr>"


text \<open>Nobody cancels, and the backend reports \<open>ok\<close>.\<close>

definition demo_ok_net :: net where
  "demo_ok_net =
     demo_net (Length_header 6) [Chunk ''ab'', Chunk ''cd'', Chunk ''ef'']
       (Json_object (Some ''ok'') (Some demo_payload))"

text \<open>The user clicks cancel right after the operation is registered, before the download.\<close>

definition demo_cancelled_first :: world where
  "demo_cancelled_first =
     handle_cancel (begin_upload demo_ok_net demo_update ''op1'' (demo_world {})) ''op1''"

text \<open>
  A server that sends a compressed body: 26 encoded bytes announced, 6 bytes once
  decoded. A backend that answers the upload with the status \<open>error-notFound\<close>. A
  world that holds the file \<open>b.txt\<close>.
\<close>

definition demo_gzip_net :: net where
  "demo_gzip_net =
    (demo_net No_header [] Json_empty)
      \<lparr>http_get := (\<lambda>u. Inr \<lparr>http_status = 200, content_length = Length_header 26,
                               compressed = True, body = [Chunk ''abcdef'']\<rparr>)\<rparr>"

definition demo_error_net :: net where
  "demo_error_net = demo_net No_header [] (Json_object (Some ''error-notFound'') None)"

definition demo_file_world :: "string set \<Rightarrow> world" where
  "demo_file_world locked = (demo_world locked)\<lparr>files := [''b.txt'' \<mapsto> ''abcdef'']\<rparr>"


section \<open>Scheduler: what a pass does to the task table\<close>

lemma run_task_char:
  "\<exists>e. logged (fst (snd (run_task call it sw))) = logged (fst sw) @ (if fst (run_task call it sw) then [e] else [])
     \<and> log_task_id e = fst it \<and> (\<exists>m. e = Task_completed (fst it) \<or> e = Task_failed (fst it) m)
     \<and> scheduled_tasks (fst (snd (run_task call it sw))) =
         (if e = Task_completed (fst it) \<and> fst (run_task call it sw) then dict_del (fst it) (scheduled_tasks (fst sw)) else scheduled_tasks (fst sw))
     \<and> running (fst (snd (run_task call it sw))) = running (fst sw)"
proof (cases "call (callback (snd it)) (args (snd it)) (kwargs (snd it)) (snd sw)")
  case (Pair oc w')
  show ?thesis
  proof (cases oc)
    case Returned
    with Pair show ?thesis
      by (cases "dict_contains (fst it) (scheduled_tasks (fst sw))")
         (auto simp: run_task_def Let_def)
  next
    case (Raised msg)
    with Pair show ?thesis by (auto simp: run_task_def Let_def)
  next
    case AwaitCancelled
    with Pair have "fst (run_task call it sw) = False" "fst (snd (run_task call it sw)) = fst sw"
      by (auto simp: run_task_def Let_def)
    then show ?thesis
      by (intro exI[of _ "Task_failed (fst it) []"]) simp
  qed
qed

lemma run_tasks_char:
  "\<exists>lg. logged (fst (snd (run_tasks call its sw))) = logged (fst sw) @ lg
     \<and> (\<forall>e \<in> set lg. log_task_id e \<in> fst ` set its \<and> (\<exists>m. e = Task_completed (log_task_id e) \<or> e = Task_failed (log_task_id e) m))
     \<and> scheduled_tasks (fst (snd (run_tasks call its sw))) =
          filter (\<lambda>kv. Task_completed (fst kv) \<notin> set lg) (scheduled_tasks (fst sw))
     \<and> (fst (run_tasks call its sw) \<longrightarrow> (\<forall>it \<in> set its. \<exists>e \<in> set lg. log_task_id e = fst it))
     \<and> (distinct (map fst its) \<longrightarrow> distinct (map log_task_id lg))"
proof (induction its arbitrary: sw)
  case Nil
  then show ?case by simp
next
  case (Cons it its)
  obtain e where e: "logged (fst (snd (run_task call it sw))) = logged (fst sw) @ (if fst (run_task call it sw) then [e] else [])"
     "log_task_id e = fst it" "(\<exists>m. e = Task_completed (fst it) \<or> e = Task_failed (fst it) m)"
     "scheduled_tasks (fst (snd (run_task call it sw))) =
         (if e = Task_completed (fst it) \<and> fst (run_task call it sw) then dict_del (fst it) (scheduled_tasks (fst sw)) else scheduled_tasks (fst sw))"
    using run_task_char[of call it sw] by blast
  show ?case
  proof (cases "fst (run_task call it sw)")
    case False
    then have "run_tasks call (it # its) sw = (False, snd (run_task call it sw))"
      by (cases "run_task call it sw") auto
    with False e show ?thesis by simp
  next
    case True
    then have eq: "run_tasks call (it # its) sw = run_tasks call its (snd (run_task call it sw))"
      by (cases "run_task call it sw") auto
    obtain lg where lg: "logged (fst (snd (run_tasks call its (snd (run_task call it sw))))) = logged (fst (snd (run_task call it sw))) @ lg"
      "(\<forall>e \<in> set lg. log_task_id e \<in> fst ` set its \<and> (\<exists>m. e = Task_completed (log_task_id e) \<or> e = Task_failed (log_task_id e) m))"
      "scheduled_tasks (fst (snd (run_tasks call its (snd (run_task call it sw))))) =
          filter (\<lambda>kv. Task_completed (fst kv) \<notin> set lg) (scheduled_tasks (fst (snd (run_task call it sw))))"
      "(fst (run_tasks call its (snd (run_task call it sw))) \<longrightarrow> (\<forall>it \<in> set its. \<exists>e \<in> set lg. log_task_id e = fst it))"
      "(distinct (map fst its) \<longrightarrow> distinct (map log_task_id lg))"
      using Cons.IH[of "snd (run_task call it sw)"] by blast
    have a: "logged (fst (snd (run_tasks call (it # its) sw))) = logged (fst sw) @ (e # lg)"
      using eq lg(1) e(1) True by simp
    have b: "\<forall>e' \<in> set (e # lg). log_task_id e' \<in> fst ` set (it # its) \<and> (\<exists>m. e' = Task_completed (log_task_id e') \<or> e' = Task_failed (log_task_id e') m)"
      using lg(2) e(2,3) by auto
    have c: "scheduled_tasks (fst (snd (run_tasks call (it # its) sw))) =
          filter (\<lambda>kv. Task_completed (fst kv) \<notin> set (e # lg)) (scheduled_tasks (fst sw))"
      using eq lg(3) e(2,3,4) True by (auto simp: dict_del_def intro!: filter_cong)
    have d: "fst (run_tasks call (it # its) sw) \<longrightarrow> (\<forall>it' \<in> set (it # its). \<exists>e' \<in> set (e # lg). log_task_id e' = fst it')"
      using eq lg(4) e(2) by auto
    have f: "distinct (map fst (it # its)) \<longrightarrow> distinct (map log_task_id (e # lg))"
      using lg(5) lg(2) e(2) by auto
    from a b c d f show ?thesis by blast
  qed
qed


lemma run_tasks_append:
  "run_tasks call (xs @ ys) sw =
     (case run_tasks call xs sw of
        (True, sw') \<Rightarrow> run_tasks call ys sw'
      | (False, sw') \<Rightarrow> (False, sw'))"
proof (induction xs arbitrary: sw)
  case Nil
  then show ?case by simp
next
  case (Cons x xs)
  then show ?case
    by (cases "run_task call x sw") (auto split: bool.splits)
qed

lemma map_of_filter_key:
  "map_of (filter (\<lambda>kv. Q (fst kv)) xs) k = (if Q k then map_of xs k else None)"
  by (induction xs) auto

lemma tick_log_char:
  "(\<forall>e \<in> set (tick_log call now sw). log_task_id e \<in> fst ` set (tasks_to_run now (fst sw))
           \<and> (\<exists>m. e = Task_completed (log_task_id e) \<or> e = Task_failed (log_task_id e) m))
     \<and> scheduled_tasks (fst (snd (tick call now sw))) =
          filter (\<lambda>kv. Task_completed (fst kv) \<notin> set (tick_log call now sw)) (scheduled_tasks (fst sw))
     \<and> (fst (tick call now sw) \<longrightarrow>
          (\<forall>it \<in> set (tasks_to_run now (fst sw)). \<exists>e \<in> set (tick_log call now sw). log_task_id e = fst it))
     \<and> (distinct (map fst (tasks_to_run now (fst sw))) \<longrightarrow> distinct (map log_task_id (tick_log call now sw)))"
proof -
  from run_tasks_char[of call "tasks_to_run now (fst sw)" sw]
  obtain lg where lg: "logged (fst (snd (run_tasks call (tasks_to_run now (fst sw)) sw))) = logged (fst sw) @ lg"
     "(\<forall>e \<in> set lg. log_task_id e \<in> fst ` set (tasks_to_run now (fst sw)) \<and> (\<exists>m. e = Task_completed (log_task_id e) \<or> e = Task_failed (log_task_id e) m))"
     "scheduled_tasks (fst (snd (run_tasks call (tasks_to_run now (fst sw)) sw))) =
          filter (\<lambda>kv. Task_completed (fst kv) \<notin> set lg) (scheduled_tasks (fst sw))"
     "(fst (run_tasks call (tasks_to_run now (fst sw)) sw) \<longrightarrow> (\<forall>it \<in> set (tasks_to_run now (fst sw)). \<exists>e \<in> set lg. log_task_id e = fst it))"
     "(distinct (map fst (tasks_to_run now (fst sw))) \<longrightarrow> distinct (map log_task_id lg))"
    by blast
  have "tick_log call now sw = lg"
    using lg(1) by (simp add: tick_log_def tick_def)
  with lg(2-5) show ?thesis by (simp add: tick_def)
qed

text \<open>
  The ids of the table stay distinct under every operation of the scheduler, so the
  hypothesis of the theorem on a pass holds for every table built from an empty one.
\<close>

lemma distinct_ids_kept:
  assumes "distinct (map fst (scheduled_tasks self))"
  shows "distinct (map fst (scheduled_tasks (snd (schedule_upload self task_id stime cb as kws))))"
    and "distinct (map fst (scheduled_tasks (snd (cancel_upload self task_id))))"
    and "distinct (map fst (scheduled_tasks (fst (snd (tick call now (self, w))))))"
proof -
  show "distinct (map fst (scheduled_tasks (snd (schedule_upload self task_id stime cb as kws))))"
    using assms by (auto simp: schedule_upload_def dict_contains_def)
  show "distinct (map fst (scheduled_tasks (snd (cancel_upload self task_id))))"
    using assms by (simp add: cancel_upload_def dict_del_def distinct_map_filter)
  have "scheduled_tasks (fst (snd (tick call now (self, w)))) =
          filter (\<lambda>kv. Task_completed (fst kv) \<notin> set (tick_log call now (self, w))) (scheduled_tasks self)"
    using tick_log_char[of call now "(self, w)"] by simp
  then show "distinct (map fst (scheduled_tasks (fst (snd (tick call now (self, w))))))"
    using assms by (simp add: distinct_map_filter)
qed

lemma demo_tick:
  "tick demo_call 10 (demo_scheduler, []) =
     (True,
      \<lparr>scheduled_tasks =
       [(''bad'', \<lparr>scheduled_time = 5, callback = 0, args = [], kwargs = []\<rparr>),
        (''later'', \<lparr>scheduled_time = 99, callback = 2, args = [], kwargs = []\<rparr>)],
       running = True, logged = [Task_failed ''bad'' ''boom'', Task_completed ''good'']\<rparr>,
      [0, 1])"
  by (simp add: tick_def tasks_to_run_def demo_scheduler_def demo_call_def run_task_def
      dict_contains_def dict_del_def)


text \<open>
  Claim C2, as the spec states it: a due task is removed from the table after its
  attempt whether the action succeeds or raises, and a failing action is never retried.
  The code deletes the entry inside the \<^verbatim>\<open>try\<close>, after the awaited callback, so
  a raising callback skips the deletion. Here the task \<open>bad\<close> is due at time 10, its
  callback raises, the task is still in the table after the pass, and the next pass
  runs its callback again.
\<close>

theorem tick_failed_task_counterexample:
  "dict_contains ''bad'' (tasks_to_run 10 demo_scheduler)
   \<and> fst (demo_call 0 [] [] []) = Raised ''boom''
   \<and> snd (snd (tick demo_call 10 (demo_scheduler, []))) = [0, 1]
   \<and> dict_contains ''bad'' (scheduled_tasks (fst (snd (tick demo_call 10 (demo_scheduler, [])))))
   \<and> snd (run_scheduler demo_call [10, 11] (demo_scheduler, [])) = [0, 1, 0]"
  by (simp add: tick_def tasks_to_run_def demo_scheduler_def demo_call_def run_task_def
      dict_contains_def dict_del_def)


text \<open>
  Claim C2, amended: take a pass over a table with distinct ids, a task of its batch,
  and what awaiting the task's callback gives at the moment the pass reaches it. When
  the callback returns, the task is out of the table right after the attempt and at
  the end of the pass, and it is logged as completed. When the callback raises, the
  error is logged with its message, the task is in the table at the end of the pass
  with the same time and action as before, and it is in the batch of every later pass.
\<close>

theorem tick_removes_completed_keeps_failed:
  assumes "distinct (map fst (scheduled_tasks self))"
      and "tasks_to_run now self = earlier @ (tid, t) # rest"
      and "run_tasks call earlier (self, w) = (True, self1, w1)"
      and "fst (call (callback t) (args t) (kwargs t) w1) = oc"
  shows "(oc = Returned \<longrightarrow>
            \<not> dict_contains tid (scheduled_tasks (fst (snd (run_task call (tid, t) (self1, w1)))))
          \<and> \<not> dict_contains tid (scheduled_tasks (fst (snd (tick call now (self, w)))))
          \<and> Task_completed tid \<in> set (tick_log call now (self, w)))
       \<and> (oc = Raised msg \<longrightarrow>
            Task_failed tid msg \<in> set (tick_log call now (self, w))
          \<and> dict_get tid (scheduled_tasks self) = Some t
          \<and> dict_get tid (scheduled_tasks (fst (snd (tick call now (self, w))))) = Some t
          \<and> (\<forall>later. now \<le> later \<longrightarrow>
                (tid, t) \<in> set (tasks_to_run later (fst (snd (tick call now (self, w)))))))"
proof -
  let ?tbl = "scheduled_tasks self"
  have dd: "distinct (map fst (earlier @ (tid, t) # rest))"
    using assms(1) assms(2)[symmetric] by (simp add: tasks_to_run_def distinct_map_filter)
  then have fresh1: "tid \<notin> fst ` set earlier" and fresh3: "tid \<notin> fst ` set rest"
    by auto
  have mem: "(tid, t) \<in> set ?tbl" and due: "scheduled_time t \<le> now"
  proof -
    have "(tid, t) \<in> set (tasks_to_run now self)" using assms(2) by simp
    then show "(tid, t) \<in> set ?tbl" and "scheduled_time t \<le> now"
      by (simp_all add: tasks_to_run_def)
  qed
  have get0: "dict_get tid ?tbl = Some t"
    using mem assms(1) by (simp add: dict_get_def)
  \<comment> \<open>the tasks before it\<close>
  from run_tasks_char[of call earlier "(self, w)"] obtain lg1 where
    "logged (fst (snd (run_tasks call earlier (self, w)))) = logged (fst (self, w)) @ lg1
     \<and> (\<forall>e \<in> set lg1. log_task_id e \<in> fst ` set earlier
          \<and> (\<exists>m. e = Task_completed (log_task_id e) \<or> e = Task_failed (log_task_id e) m))
     \<and> scheduled_tasks (fst (snd (run_tasks call earlier (self, w)))) =
          filter (\<lambda>kv. Task_completed (fst kv) \<notin> set lg1) (scheduled_tasks (fst (self, w)))
     \<and> (fst (run_tasks call earlier (self, w)) \<longrightarrow>
          (\<forall>it \<in> set earlier. \<exists>e \<in> set lg1. log_task_id e = fst it))
     \<and> (distinct (map fst earlier) \<longrightarrow> distinct (map log_task_id lg1))" ..
  then have lg1: "logged self1 = logged self @ lg1"
    and ids1: "\<forall>e \<in> set lg1. log_task_id e \<in> fst ` set earlier"
    and tbl1: "scheduled_tasks self1 = filter (\<lambda>kv. Task_completed (fst kv) \<notin> set lg1) ?tbl"
    using assms(3) by simp_all
  have nc1: "Task_completed tid \<notin> set lg1"
    using ids1 fresh1 by force
  have mem1: "(tid, t) \<in> set (scheduled_tasks self1)"
    using mem nc1 by (simp add: tbl1)
  then have in1: "dict_contains tid (scheduled_tasks self1)"
    by (force simp: dict_contains_def)
  \<comment> \<open>the tasks after it, from a state \<open>self2\<close> that the attempt leaves\<close>
  have after: "\<exists>lg3. Task_completed tid \<notin> set lg3
        \<and> logged (fst (snd (run_tasks call rest (self2, w2)))) = logged self2 @ lg3
        \<and> scheduled_tasks (fst (snd (run_tasks call rest (self2, w2)))) =
             filter (\<lambda>kv. Task_completed (fst kv) \<notin> set lg3) (scheduled_tasks self2)"
    for self2 :: "('a, 'b) UploadScheduler" and w2
  proof -
    from run_tasks_char[of call rest "(self2, w2)"] obtain lg where
      "logged (fst (snd (run_tasks call rest (self2, w2)))) = logged (fst (self2, w2)) @ lg
       \<and> (\<forall>e \<in> set lg. log_task_id e \<in> fst ` set rest
            \<and> (\<exists>m. e = Task_completed (log_task_id e) \<or> e = Task_failed (log_task_id e) m))
       \<and> scheduled_tasks (fst (snd (run_tasks call rest (self2, w2)))) =
            filter (\<lambda>kv. Task_completed (fst kv) \<notin> set lg) (scheduled_tasks (fst (self2, w2)))
       \<and> (fst (run_tasks call rest (self2, w2)) \<longrightarrow>
            (\<forall>it \<in> set rest. \<exists>e \<in> set lg. log_task_id e = fst it))
       \<and> (distinct (map fst rest) \<longrightarrow> distinct (map log_task_id lg))" ..
    then have l: "logged (fst (snd (run_tasks call rest (self2, w2)))) = logged self2 @ lg"
      and i: "\<forall>e \<in> set lg. log_task_id e \<in> fst ` set rest"
      and f: "scheduled_tasks (fst (snd (run_tasks call rest (self2, w2)))) =
            filter (\<lambda>kv. Task_completed (fst kv) \<notin> set lg) (scheduled_tasks self2)"
      by simp_all
    have "Task_completed tid \<notin> set lg" using i fresh3 by force
    with l f show ?thesis by blast
  qed
  \<comment> \<open>the pass as a whole\<close>
  have pass: "tick call now (self, w) = run_tasks call rest (self2, w2)"
    if "run_task call (tid, t) (self1, w1) = (True, self2, w2)" for self2 w2
    using that assms(2,3) by (simp add: tick_def run_tasks_append)
  obtain w2 where call: "call (callback t) (args t) (kwargs t) w1 = (oc, w2)"
    using assms(4) by (cases "call (callback t) (args t) (kwargs t) w1") auto
  have R: "\<not> dict_contains tid (scheduled_tasks (fst (snd (run_task call (tid, t) (self1, w1)))))
          \<and> \<not> dict_contains tid (scheduled_tasks (fst (snd (tick call now (self, w)))))
          \<and> Task_completed tid \<in> set (tick_log call now (self, w))"
    if oc: "oc = Returned"
  proof -
    let ?self2 = "self1\<lparr>scheduled_tasks := dict_del tid (scheduled_tasks self1),
                        logged := logged self1 @ [Task_completed tid]\<rparr>"
    have step: "run_task call (tid, t) (self1, w1) = (True, ?self2, w2)"
      using call oc in1 by (simp add: run_task_def)
    let ?fin = "fst (snd (run_tasks call rest (?self2, w2)))"
    from after[of ?self2 w2] obtain lg3 where
      l3: "logged ?fin = logged ?self2 @ lg3"
      and t3: "scheduled_tasks ?fin =
                 filter (\<lambda>kv. Task_completed (fst kv) \<notin> set lg3) (scheduled_tasks ?self2)"
      by blast
    have 1: "\<not> dict_contains tid (scheduled_tasks (fst (snd (run_task call (tid, t) (self1, w1)))))"
      by (auto simp: step dict_contains_def dict_del_def)
    have 2: "\<not> dict_contains tid (scheduled_tasks (fst (snd (tick call now (self, w)))))"
      unfolding pass[OF step] t3 by (auto simp: dict_contains_def dict_del_def)
    have "logged ?fin = logged self @ (lg1 @ Task_completed tid # lg3)"
      using l3 lg1 by simp
    then have "tick_log call now (self, w) = lg1 @ Task_completed tid # lg3"
      unfolding tick_log_def pass[OF step] by simp
    then have 3: "Task_completed tid \<in> set (tick_log call now (self, w))" by simp
    from 1 2 3 show ?thesis by blast
  qed
  have F: "Task_failed tid msg \<in> set (tick_log call now (self, w))
          \<and> dict_get tid (scheduled_tasks self) = Some t
          \<and> dict_get tid (scheduled_tasks (fst (snd (tick call now (self, w))))) = Some t
          \<and> (\<forall>later. now \<le> later \<longrightarrow>
                (tid, t) \<in> set (tasks_to_run later (fst (snd (tick call now (self, w))))))"
    if oc: "oc = Raised msg"
  proof -
    let ?self2 = "self1\<lparr>logged := logged self1 @ [Task_failed tid msg]\<rparr>"
    have step: "run_task call (tid, t) (self1, w1) = (True, ?self2, w2)"
      using call oc by (simp add: run_task_def)
    let ?fin = "fst (snd (run_tasks call rest (?self2, w2)))"
    from after[of ?self2 w2] obtain lg3 where
      nc3: "Task_completed tid \<notin> set lg3"
      and l3: "logged ?fin = logged ?self2 @ lg3"
      and t3: "scheduled_tasks ?fin =
                 filter (\<lambda>kv. Task_completed (fst kv) \<notin> set lg3) (scheduled_tasks ?self2)"
      by blast
    have "logged ?fin = logged self @ (lg1 @ Task_failed tid msg # lg3)"
      using l3 lg1 by simp
    then have "tick_log call now (self, w) = lg1 @ Task_failed tid msg # lg3"
      unfolding tick_log_def pass[OF step] by simp
    then have 1: "Task_failed tid msg \<in> set (tick_log call now (self, w))" by simp
    have fin: "scheduled_tasks ?fin =
                 filter (\<lambda>kv. Task_completed (fst kv) \<notin> set lg3)
                   (filter (\<lambda>kv. Task_completed (fst kv) \<notin> set lg1) ?tbl)"
      using t3 tbl1 by simp
    have 2: "dict_get tid (scheduled_tasks (fst (snd (tick call now (self, w))))) = Some t"
      unfolding pass[OF step] fin dict_get_def
      using nc1 nc3 get0
      by (simp add: map_of_filter_key[of "\<lambda>k. Task_completed k \<notin> set lg1
                                                \<and> Task_completed k \<notin> set lg3"] dict_get_def)
    have "(tid, t) \<in> set (scheduled_tasks (fst (snd (tick call now (self, w)))))"
      unfolding pass[OF step] fin using mem nc1 nc3 by simp
    then have 3: "\<forall>later. now \<le> later \<longrightarrow>
                (tid, t) \<in> set (tasks_to_run later (fst (snd (tick call now (self, w)))))"
      using due by (simp add: tasks_to_run_def)
    from 1 get0 2 3 show ?thesis by blast
  qed
  from R F show ?thesis by blast
qed

theorem tick_removes_completed_keeps_failed_witness:
  "distinct (map fst (scheduled_tasks demo_scheduler))
   \<and> tasks_to_run 10 demo_scheduler
        = [] @ (''bad'', \<lparr>scheduled_time = 5, callback = 0, args = [], kwargs = []\<rparr>)
             # [(''good'', \<lparr>scheduled_time = 7, callback = 1, args = [], kwargs = []\<rparr>)]
   \<and> run_tasks demo_call [] (demo_scheduler, []) = (True, demo_scheduler, [])
   \<and> fst (demo_call 0 [] [] []) = Raised ''boom''
   \<and> Task_failed ''bad'' ''boom'' \<in> set (tick_log demo_call 10 (demo_scheduler, []))
   \<and> dict_get ''bad'' (scheduled_tasks (fst (snd (tick demo_call 10 (demo_scheduler, [])))))
       = Some \<lparr>scheduled_time = 5, callback = 0, args = [], kwargs = []\<rparr>
   \<and> (''bad'', \<lparr>scheduled_time = 5, callback = 0, args = [], kwargs = []\<rparr>)
       \<in> set (tasks_to_run 11 (fst (snd (tick demo_call 10 (demo_scheduler, [])))))
   \<and> fst (demo_call 1 [] [] [0]) = Returned
   \<and> \<not> dict_contains ''good'' (scheduled_tasks (fst (snd (tick demo_call 10 (demo_scheduler, [])))))
   \<and> Task_completed ''good'' \<in> set (tick_log demo_call 10 (demo_scheduler, []))"
proof -
  let ?bad = "\<lparr>scheduled_time = 5, callback = 0::nat, args = []::unit list, kwargs = []\<rparr>"
  let ?good = "\<lparr>scheduled_time = 7, callback = 1::nat, args = []::unit list, kwargs = []\<rparr>"
  have d: "distinct (map fst (scheduled_tasks demo_scheduler))"
    by (simp add: demo_scheduler_def)
  have b1: "tasks_to_run 10 demo_scheduler = [] @ (''bad'', ?bad) # [(''good'', ?good)]"
    by (simp add: tasks_to_run_def demo_scheduler_def)
  have b2: "run_tasks demo_call [] (demo_scheduler, []) = (True, demo_scheduler, [])"
    by simp
  have b3: "fst (demo_call (callback ?bad) (args ?bad) (kwargs ?bad) []) = Raised ''boom''"
    by (simp add: demo_call_def)
  have g1: "tasks_to_run 10 demo_scheduler = [(''bad'', ?bad)] @ (''good'', ?good) # []"
    by (simp add: tasks_to_run_def demo_scheduler_def)
  have g2: "run_tasks demo_call [(''bad'', ?bad)] (demo_scheduler, [])
             = (True, demo_scheduler\<lparr>logged := logged demo_scheduler @ [Task_failed ''bad'' ''boom'']\<rparr>, [0])"
    by (simp add: run_task_def demo_call_def)
  have g3: "fst (demo_call (callback ?good) (args ?good) (kwargs ?good) [0]) = Returned"
    by (simp add: demo_call_def)
  from tick_removes_completed_keeps_failed[OF d b1 b2 b3, of "''boom''"]
       tick_removes_completed_keeps_failed[OF d g1 g2 g3, of "''boom''"]
  show ?thesis using d b1 b2 b3 g3 by simp
qed


text \<open>
  Claim C6: scheduling under an id that is already in the table returns False and
  leaves the table as it was: the same entries, the existing task's time and action
  unchanged, nothing added.
\<close>

theorem schedule_upload_existing_id:
  assumes "dict_contains task_id (scheduled_tasks self)"
  shows "fst (schedule_upload self task_id stime cb as kws) = False
       \<and> scheduled_tasks (snd (schedule_upload self task_id stime cb as kws)) = scheduled_tasks self
       \<and> get_task_info (snd (schedule_upload self task_id stime cb as kws)) task_id
           = get_task_info self task_id
       \<and> running (snd (schedule_upload self task_id stime cb as kws)) = running self"
  using assms by (simp add: schedule_upload_def get_task_info_def)

theorem schedule_upload_existing_id_witness:
  "dict_contains ''bad'' (scheduled_tasks demo_scheduler)
   \<and> fst (schedule_upload demo_scheduler ''bad'' 1000 3 [] []) = False
   \<and> scheduled_tasks (snd (schedule_upload demo_scheduler ''bad'' 1000 3 [] []))
       = scheduled_tasks demo_scheduler
   \<and> get_task_info (snd (schedule_upload demo_scheduler ''bad'' 1000 3 [] [])) ''bad''
       = Some \<lparr>scheduled_time = 5, callback = 0, args = [], kwargs = []\<rparr>"
proof -
  have c: "dict_contains ''bad'' (scheduled_tasks demo_scheduler)"
    by (simp add: demo_scheduler_def dict_contains_def)
  from schedule_upload_existing_id[OF c, of 1000 3 "[]" "[]"] c
  show ?thesis by (simp add: get_task_info_def dict_get_def demo_scheduler_def)
qed


section \<open>Watcher: files that are too small or still locked\<close>

lemma splitext_demo: "lower (splitext_ext ''/watch/notes.txt'') = ''.txt''"
  by (simp add: splitext_ext_def basename_def lower_def lower_char_def Let_def)


lemma demo_pending_eq:
  "demo_pending = demo_handler\<lparr>processing_files := [''/watch/notes.txt'' \<mapsto> 100],
                      process_tasks := [''/watch/notes.txt'']\<rparr>"
  by (simp add: demo_pending_def on_created_def is_valid_file_def is_file_locked_def demo_event_def
      Let_def demo_os_def demo_handler_def splitext_demo min_file_size_def max_file_size_def)

text \<open>
  The same file, unchanged and unlocked when the cooldown is over, is handed to the
  callback: the hypotheses of the two theorems below are what keeps a file out.
\<close>

lemma stable_file_ingested:
  "callback_calls (process_file (demo_os 2048 Opened 105) demo_pending ''/watch/notes.txt'') = [''/watch/notes.txt'']"
  by (simp add: demo_pending_eq process_file_def is_valid_file_def is_file_locked_def
      demo_os_def demo_handler_def splitext_demo min_file_size_def max_file_size_def cooldown_period_def)

text \<open>
  Claim C8: a detected file whose size is below the configured minimum, at detection
  and at the re-check after the cooldown, never reaches the ingestion action. At
  detection \<^verbatim>\<open>on_created\<close> leaves the handler as it was, so no pending entry and
  no processing task exist for the file; and whatever the handler's state, a
  re-check that finds the file below the minimum calls nothing, at any clock reading.
\<close>

theorem small_file_never_ingested:
  assumes "getsize env1 (src_path event) = Some n1" and "n1 < min_file_size"
      and "getsize env2 (src_path event) = Some n2" and "n2 < min_file_size"
  shows "on_created env1 event self = self
       \<and> callback_calls (process_file env2 self' (src_path event)) = callback_calls self'"
  using assms by (simp add: on_created_def process_file_def is_valid_file_def Let_def)

theorem small_file_never_ingested_witness:
  "getsize (demo_os 100 Opened 100) (src_path demo_event) = Some 100 \<and> (100::nat) < min_file_size
   \<and> getsize (demo_os 200 Opened 105) (src_path demo_event) = Some 200 \<and> (200::nat) < min_file_size
   \<and> on_created (demo_os 100 Opened 100) demo_event demo_handler = demo_handler
   \<and> callback_calls (process_file (demo_os 200 Opened 105)
        (demo_handler\<lparr>processing_files := [''/watch/notes.txt'' \<mapsto> 100],
                      process_tasks := [''/watch/notes.txt'']\<rparr>) (src_path demo_event)) = []"
proof -
  have a: "getsize (demo_os 100 Opened 100) (src_path demo_event) = Some 100"
    and b: "(100::nat) < min_file_size"
    and c: "getsize (demo_os 200 Opened 105) (src_path demo_event) = Some 200"
    and d: "(200::nat) < min_file_size"
    by (simp_all add: demo_os_def min_file_size_def)
  from small_file_never_ingested[OF a b c d, of demo_handler
        "demo_handler\<lparr>processing_files := [''/watch/notes.txt'' \<mapsto> 100],
                      process_tasks := [''/watch/notes.txt'']\<rparr>"] a b c d
  show ?thesis by (simp add: demo_handler_def)
qed

text \<open>
  Claim C9: a pending file that is judged locked at the re-check after the cooldown
  is dropped: the ingestion action is not called, nothing is logged as an error, the
  pending entry of the file is removed, and the processing task is over without
  another one being created, so the file is not checked again.
\<close>

theorem locked_file_dropped:
  assumes "is_file_locked env self file_path"
  shows "callback_calls (process_file env self file_path) = callback_calls self
       \<and> processing_errors (process_file env self file_path) = processing_errors self
       \<and> processing_files (process_file env self file_path) file_path = None
       \<and> process_tasks (process_file env self file_path) = remove1 file_path (process_tasks self)"
  using assms by (simp add: process_file_def Let_def)

theorem locked_file_dropped_witness:
  "is_file_locked (demo_os 4096 Open_IOError 105) demo_pending ''/watch/notes.txt''
   \<and> process_tasks demo_pending = [''/watch/notes.txt'']
   \<and> callback_calls (process_file (demo_os 4096 Open_IOError 105) demo_pending ''/watch/notes.txt'') = []
   \<and> processing_files (process_file (demo_os 4096 Open_IOError 105) demo_pending ''/watch/notes.txt'')
        ''/watch/notes.txt'' = None
   \<and> process_tasks (process_file (demo_os 4096 Open_IOError 105) demo_pending ''/watch/notes.txt'') = []"
proof -
  have l: "is_file_locked (demo_os 4096 Open_IOError 105) demo_pending ''/watch/notes.txt''"
    by (simp add: demo_pending_eq is_file_locked_def demo_os_def demo_handler_def cooldown_period_def)
  from locked_file_dropped[OF l] l show ?thesis
    by (simp add: demo_pending_eq demo_handler_def)
qed


section \<open>The /upload handler: what is recorded for an operation\<close>

subsection \<open>Nothing below the handler touches the operations table\<close>

lemma os_remove_frame [simp]:
  "operations_table (snd (os_remove w p)) = operations_table w"
  "active_operations (snd (os_remove w p)) = active_operations w"
  "progress_reports (snd (os_remove w p)) = progress_reports w"
  "protected (snd (os_remove w p)) = protected w"
  "edits (snd (os_remove w p)) = edits w"
  by (auto simp: os_remove_def split: option.splits)

lemma handle_cancel_frame [simp]:
  "operations_table (handle_cancel w oid) = operations_table w"
  "progress_reports (handle_cancel w oid) = progress_reports w"
  "files (handle_cancel w oid) = files w"
  "protected (handle_cancel w oid) = protected w"
  by (auto simp: handle_cancel_def split: option.splits)

lemma small_frames [simp]:
  "operations_table (file_write w p c) = operations_table w"
  "operations_table (edit_text w t) = operations_table w"
  "operations_table (update_progress_message a b w) = operations_table w"
  "progress_reports (file_write w p c) = progress_reports w"
  "progress_reports (edit_text w t) = progress_reports w"
  "active_operations (file_write w p c) = active_operations w"
  "active_operations (edit_text w t) = active_operations w"
  "active_operations (update_progress_message a b w) = active_operations w"
  "files (edit_text w t) = files w"
  "files (update_progress_message a b w) = files w"
  "protected (file_write w p c) = protected w"
  "protected (edit_text w t) = protected w"
  "protected (update_progress_message a b w) = protected w"
  by (simp_all add: file_write_def edit_text_def update_progress_message_def)

lemma download_chunks_table [simp]:
  "operations_table (snd (download_chunks oid media total_size events d w)) = operations_table w"
proof (induction oid media total_size events d w rule: download_chunks.induct)
  case (3 oid media total_size chunk events downloaded w)
  then show ?case
    by (cases "os_remove w media") (auto simp: Let_def split: option.splits prod.splits
          dest: arg_cong[where f="\<lambda>r. operations_table (snd r)"])
qed simp_all

lemma tg_wait_table [simp]:
  "operations_table (snd (tg_wait oid events w)) = operations_table w"
  by (induction oid events w rule: tg_wait.induct) (auto split: option.splits)

lemma download_with_progress_table [simp]:
  "operations_table (snd (download_with_progress n oid url reply w)) = operations_table w"
proof -
  have c: "\<And>media t evs w1. operations_table (snd (case download_chunks oid media t evs 0 w1 of
              (Some e, w2) \<Rightarrow> (Inl e, w2) | (None, w2) \<Rightarrow> (Inr media, w2))) = operations_table w1"
    subgoal for media t evs w1
      using download_chunks_table[of oid media t evs 0 w1]
      by (cases "download_chunks oid media t evs 0 w1") (auto split: option.splits)
    done
  have t: "\<And>evs. operations_table (snd (tg_wait oid evs w)) = operations_table w" by simp
  show ?thesis
    unfolding download_with_progress_def
    apply (auto simp: Let_def open_wb_def c split: sum.splits length_header.splits option.splits prod.splits)
    apply (metis t snd_conv)+
    done
qed

lemma uploadFile_try_table [simp]:
  "operations_table (snd (uploadFile_try n file_path token folderId w)) = operations_table w"
  by (auto simp: uploadFile_try_def Let_def
      split: sum.splits option.splits post_outcome.splits json_body.splits)

lemma uploadFile_table [simp]:
  "operations_table (snd (uploadFile n file_path token folderId w)) = operations_table w"
  using uploadFile_try_table[of n file_path token folderId w]
  by (cases "uploadFile_try n file_path token folderId w")
     (auto simp: uploadFile_def split: sum.splits exn.splits)

lemma upload_with_progress_table [simp]:
  "operations_table (snd (upload_with_progress n file_path oid token folderId w)) = operations_table w"
proof (cases "os_getsize w file_path")
  case (Inl e)
  then show ?thesis by (simp add: upload_with_progress_def)
next
  case (Inr n0)
  let ?w1 = "update_progress_message 0 (int n0) w"
  have "operations_table (snd (uploadFile n file_path token folderId ?w1)) = operations_table w"
    by simp
  with Inr show ?thesis
    by (cases "uploadFile n file_path token folderId ?w1")
       (auto simp: upload_with_progress_def Let_def split: sum.splits)
qed

lemma upload_download_table [simp]:
  "operations_table (snd (upload_download n upd oid w)) = operations_table w"
proof (cases "parse_upload_command (text_parts upd)")
  case (Inl e)
  then show ?thesis by (simp add: upload_download_def)
next
  case (Inr p)
  obtain url token folderId where p: "p = (url, token, folderId)" by (cases p) auto
  let ?d = "download_with_progress n oid url (reply_to_message upd) (edit_text w ''`Downloading...`'')"
  have "operations_table (snd ?d) = operations_table w" by simp
  with Inr p show ?thesis
    by (cases ?d) (auto simp: upload_download_def split: sum.splits exn.splits option.splits)
qed

lemma upload_body_table:
  "operations_table (snd (upload_body n upd oid w)) =
     (if fst (upload_body n upd oid w) = None
      then update_operation_status (operations_table w) oid ''completed''
      else operations_table w)"
proof (cases "upload_download n upd oid w")
  case (Pair r w1)
  have t1: "operations_table w1 = operations_table w"
    using upload_download_table[of n upd oid w] Pair by simp
  show ?thesis
  proof (cases r)
    case (Inl e)
    with Pair t1 show ?thesis by (simp add: upload_body_def)
  next
    case (Inr m)
    obtain media token folderId where m: "m = (media, token, folderId)" by (cases m) auto
    let ?w2 = "edit_text w1 ''`Downloaded Successfully`''"
    let ?u = "upload_with_progress n media oid token folderId (edit_text ?w2 ''`Uploading...`'')"
    have t3: "operations_table (snd ?u) = operations_table w" using t1 by simp
    show ?thesis
    proof (cases ?u)
      case (Pair ur w3)
      with t3 have t3': "operations_table w3 = operations_table w" by simp
      from Pair \<open>upload_download n upd oid w = (r, w1)\<close> Inr m t1 t3' show ?thesis
        by (auto simp: upload_body_def Let_def split: sum.splits)
    qed
  qed
qed

lemma recorded_status_update:
  "recorded_status (update_operation_status tbl oid st) oid = map (\<lambda>_. st) (recorded_status tbl oid)"
  by (induction tbl) (auto simp: recorded_status_def update_operation_status_def)

lemma recorded_status_add:
  "recorded_status (add_operation tbl oid uid ty t) oid = recorded_status tbl oid @ [''active'']"
  by (simp add: recorded_status_def add_operation_def)


lemma begin_upload_table:
  "operations_table (begin_upload n upd oid w) =
     add_operation (operations_table w) oid (from_user upd) ''upload'' (now_iso n)"
  by (simp add: begin_upload_def)

lemma handle_upload_try_table:
  "operations_table (handle_upload_try n upd oid w) =
     update_operation_status (add_operation (operations_table w) oid (from_user upd) ''upload'' (now_iso n)) oid
       (if fst (upload_body n upd oid (begin_upload n upd oid w)) = None then ''completed'' else ''failed'')"
  using upload_body_table[of n upd oid "begin_upload n upd oid w"]
  by (auto simp: handle_upload_try_def upload_handlers_def begin_upload_table split: option.splits)

subsection \<open>The example runs\<close>

lemma demo_parse:
  "parse_upload_command (text_parts demo_update) = Inr (Some ''http://host/a/b.txt'', None, None)"
  by (simp add: parse_upload_command_def demo_update_def)

lemma demo_begin:
  "begin_upload (demo_net hdr events reply) demo_update ''op1'' (demo_world locked) =
     \<lparr>active_operations = [''op1'' \<mapsto> \<lparr>cancelled = False, op_user_id = 7\<rparr>],
      operations_table = [\<lparr>operation_id = ''op1'', user_id = 7, op_type = ''upload'',
                           start_time = ''2024-01-01T00:00:00'', status = ''active''\<rparr>],
      stats_table = [], files = Map.empty, directories = {''downloads''}, protected = locked,
      progress_reports = [],
      edits = [''`Processing...`'']\<rparr>"
  by (simp add: begin_upload_def demo_net_def demo_update_def demo_world_def add_operation_def edit_text_def)



lemma demo_ok_body:
  "fst (upload_body demo_ok_net demo_update ''op1''
          (begin_upload demo_ok_net demo_update ''op1'' (demo_world {''b.txt''}))) = None"
  unfolding demo_ok_net_def
  apply (simp add: demo_begin upload_body_def upload_download_def demo_parse)
  apply (simp add: download_with_progress_def demo_update_def)
  apply (simp add: demo_net_def iter_chunked_def open_wb_def cannot_open_def edit_text_def file_write_def update_progress_message_def)
  apply (simp add: validate_file_size_def os_getsize_def MAX_FILE_SIZE_def validate_file_type_def
      splitext_ext_def basename_def lower_def lower_char_def lstrip_dots_def ALLOWED_EXTENSIONS_def
      Let_def)
  apply (simp add: upload_with_progress_def os_getsize_def update_progress_message_def
      edit_text_def Let_def)
  apply (simp add: uploadFile_def uploadFile_try_def get_server_def os_remove_def form_data_def
      demo_net_def demo_payload_def result_lines_def os_getsize_def update_progress_message_def)
  done

subsection \<open>Cancellation\<close>




subsection \<open>The recorded status\<close>





section \<open>The download loop and the cancellation flag\<close>

lemma handle_cancel_flag:
  "active_operations w oid = Some a \<Longrightarrow> cancelled a \<Longrightarrow>
     \<exists>a'. active_operations (handle_cancel w oid) oid = Some a' \<and> cancelled a'"
  by (simp add: handle_cancel_def)

lemma download_chunks_flag_set:
  assumes "active_operations w oid = Some a" and "cancelled a"
  shows "progress_reports (snd (download_chunks oid media total_size events d w)) = progress_reports w
       \<and> (first_delivery events = None \<longrightarrow>
             fst (download_chunks oid media total_size events d w) = None
           \<and> files (snd (download_chunks oid media total_size events d w)) = files w)
       \<and> (\<forall>m. first_delivery events = Some (Stream_error m) \<longrightarrow>
             fst (download_chunks oid media total_size events d w) = Some (OtherError m)
           \<and> files (snd (download_chunks oid media total_size events d w)) = files w)
       \<and> (\<forall>c. first_delivery events = Some (Chunk c) \<and> media \<notin> protected w \<longrightarrow>
             fst (download_chunks oid media total_size events d w)
               = Some (ValueError operation_cancelled)
           \<and> files (snd (download_chunks oid media total_size events d w))
               = (files w)(media := None))"
  using assms
proof (induction events arbitrary: w a)
  case Nil
  then show ?case by simp
next
  case (Cons ev events)
  show ?case
  proof (cases ev)
    case (Chunk c)
    with Cons.prems show ?thesis by (auto simp: os_remove_def)
  next
    case Cancel_click
    from handle_cancel_flag[OF Cons.prems(1,2)] obtain a'
      where a': "active_operations (handle_cancel w oid) oid = Some a'" "cancelled a'" by blast
    from Cons.IH[OF a'] Cancel_click show ?thesis by simp
  next
    case (Stream_error m)
    then show ?thesis by simp
  qed
qed

lemma demo_cancelled_first_flag:
  "active_operations demo_cancelled_first ''op1'' = Some \<lparr>cancelled = True, op_user_id = 7\<rparr>"
  "files demo_cancelled_first = Map.empty"
  "protected demo_cancelled_first = {}"
  "directories demo_cancelled_first = {''downloads''}"
  "progress_reports demo_cancelled_first = []"
  by (simp_all add: demo_cancelled_first_def demo_ok_net_def demo_begin handle_cancel_def)

text \<open>
  Claim C5, as the spec states it: with the flag already set when the transfer starts,
  the executor aborts, removes the partial output and reports the cancellation. The
  flag is read once per chunk, so with an empty body it is never read: the download
  returns the file name, and the empty file it created stays.
\<close>

theorem cancelled_before_start_counterexample:
  "active_operations demo_cancelled_first ''op1'' = Some \<lparr>cancelled = True, op_user_id = 7\<rparr>
   \<and> fst (download_with_progress (demo_net (Length_header 0) [] Json_empty) ''op1''
            (Some ''http://host/a/b.txt'') None demo_cancelled_first) = Inr ''b.txt''
   \<and> files (snd (download_with_progress (demo_net (Length_header 0) [] Json_empty) ''op1''
            (Some ''http://host/a/b.txt'') None demo_cancelled_first)) ''b.txt'' = Some []"
  by (simp add: demo_cancelled_first_flag download_with_progress_def)
     (simp add: demo_net_def iter_chunked_def open_wb_def cannot_open_def Let_def
        demo_cancelled_first_flag)

text \<open>
  Claim C5, amended: let the flag be set as the download from a URL starts, the
  response have status 200 and a usable Content-Length, and the output file be one
  that can be opened for writing. If the first thing the body delivers is a chunk and
  the file can be removed, the download raises the cancellation error without writing
  the chunk, and the output file is gone. If the body delivers nothing, the flag is
  never read: the download returns the file name and the empty file stays. If the
  stream fails before a chunk, its error is raised and the empty file stays. In all
  three cases no progress is reported and every other file is as before.
\<close>

theorem cancelled_before_start_aborts:
  assumes "active_operations w oid = Some a" and "cancelled a"
      and "url \<noteq> []" and "http_get n url = Inr resp" and "http_status resp = 200"
      and "\<forall>h. content_length resp \<noteq> Bad_header h"
      and "\<not> cannot_open w (last (split_on CHR ''/'' url))"
  shows "progress_reports (snd (download_with_progress n oid (Some url) reply_message w))
           = progress_reports w
       \<and> (\<forall>c. first_delivery (iter_chunked resp) = Some (Chunk c)
               \<and> last (split_on CHR ''/'' url) \<notin> protected w \<longrightarrow>
             fst (download_with_progress n oid (Some url) reply_message w)
               = Inl (ValueError operation_cancelled)
           \<and> files (snd (download_with_progress n oid (Some url) reply_message w))
               = (files w)(last (split_on CHR ''/'' url) := None))
       \<and> (first_delivery (iter_chunked resp) = None \<longrightarrow>
             fst (download_with_progress n oid (Some url) reply_message w)
               = Inr (last (split_on CHR ''/'' url))
           \<and> files (snd (download_with_progress n oid (Some url) reply_message w))
               = (files w)(last (split_on CHR ''/'' url) \<mapsto> []))
       \<and> (\<forall>m. first_delivery (iter_chunked resp) = Some (Stream_error m) \<longrightarrow>
             fst (download_with_progress n oid (Some url) reply_message w) = Inl (OtherError m)
           \<and> files (snd (download_with_progress n oid (Some url) reply_message w))
               = (files w)(last (split_on CHR ''/'' url) \<mapsto> []))"
proof -
  let ?media = "last (split_on CHR ''/'' url)"
  let ?w1 = "w\<lparr>files := (files w)(?media \<mapsto> [])\<rparr>"
  let ?c = "download_chunks oid ?media (header_total resp) (iter_chunked resp) 0 ?w1"
  have f: "active_operations ?w1 oid = Some a" using assms(1) by simp
  note c = download_chunks_flag_set[OF f assms(2), of ?media "header_total resp" "iter_chunked resp" 0]
  have d: "download_with_progress n oid (Some url) reply_message w =
             (case ?c of (Some e, w2) \<Rightarrow> (Inl e, w2) | (None, w2) \<Rightarrow> (Inr ?media, w2))"
    using assms(3-7)
    by (cases "content_length resp")
       (simp_all add: download_with_progress_def open_wb_def header_total_def Let_def)
  obtain rc wc where rc: "?c = (rc, wc)" by (cases ?c)
  show ?thesis
  proof (cases rc)
    case None
    with c rc show ?thesis unfolding d by auto
  next
    case (Some e)
    with c rc show ?thesis unfolding d by auto
  qed
qed

theorem cancelled_before_start_aborts_witness:
  "active_operations demo_cancelled_first ''op1'' = Some \<lparr>cancelled = True, op_user_id = 7\<rparr>
   \<and> http_get demo_ok_net ''http://host/a/b.txt''
        = Inr \<lparr>http_status = 200, content_length = Length_header 6, compressed = False,
               body = [Chunk ''ab'', Chunk ''cd'', Chunk ''ef'']\<rparr>
   \<and> \<not> cannot_open demo_cancelled_first (last (split_on CHR ''/'' ''http://host/a/b.txt''))
   \<and> first_delivery (iter_chunked \<lparr>http_status = 200, content_length = Length_header 6,
        compressed = False, body = [Chunk ''ab'', Chunk ''cd'', Chunk ''ef'']\<rparr>) = Some (Chunk ''ab'')
   \<and> fst (download_with_progress demo_ok_net ''op1'' (Some ''http://host/a/b.txt'') None
            demo_cancelled_first) = Inl (ValueError operation_cancelled)
   \<and> files (snd (download_with_progress demo_ok_net ''op1'' (Some ''http://host/a/b.txt'') None
            demo_cancelled_first)) ''b.txt'' = None
   \<and> progress_reports (snd (download_with_progress demo_ok_net ''op1''
            (Some ''http://host/a/b.txt'') None demo_cancelled_first)) = []
   \<and> first_delivery (iter_chunked \<lparr>http_status = 200, content_length = Length_header 0,
        compressed = False, body = []\<rparr>) = None
   \<and> fst (download_with_progress (demo_net (Length_header 0) [] Json_empty) ''op1''
            (Some ''http://host/a/b.txt'') None demo_cancelled_first) = Inr ''b.txt''"
proof -
  have g: "http_get demo_ok_net ''http://host/a/b.txt''
        = Inr \<lparr>http_status = 200, content_length = Length_header 6, compressed = False,
               body = [Chunk ''ab'', Chunk ''cd'', Chunk ''ef'']\<rparr>"
    by (simp add: demo_ok_net_def demo_net_def)
  have g0: "http_get (demo_net (Length_header 0) [] Json_empty) ''http://host/a/b.txt''
        = Inr \<lparr>http_status = 200, content_length = Length_header 0, compressed = False,
               body = []\<rparr>"
    by (simp add: demo_net_def)
  have o: "\<not> cannot_open demo_cancelled_first (last (split_on CHR ''/'' ''http://host/a/b.txt''))"
    by (simp add: cannot_open_def demo_cancelled_first_flag)
  have u: "''http://host/a/b.txt'' \<noteq> []" by simp
  have t: "True = cancelled \<lparr>cancelled = True, op_user_id = 7\<rparr>" by simp
  from cancelled_before_start_aborts[OF demo_cancelled_first_flag(1) _ u g _ _ o, of None]
       cancelled_before_start_aborts[OF demo_cancelled_first_flag(1) _ u g0 _ _ o, of None]
  show ?thesis using g o
    by (simp add: demo_cancelled_first_flag iter_chunked_def)
qed


section \<open>Progress reports\<close>

lemma download_chunks_reports:
  "\<exists>ds. progress_reports (snd (download_chunks oid media total_size events d w))
          = progress_reports w @ map (\<lambda>k. (int k, total_size)) ds
      \<and> sorted ds \<and> (\<forall>k \<in> set ds. d \<le> k) \<and> (ds \<noteq> [] \<longrightarrow> total_size \<noteq> 0)
      \<and> (fst (download_chunks oid media total_size events d w) = None \<longrightarrow>
            length ds = length (chunks_of events)
          \<and> (ds \<noteq> [] \<longrightarrow> last ds = d + length (concat (chunks_of events))))"
proof (induction oid media total_size events d w rule: download_chunks.induct)
  case (1 oid media total_size downloaded w)
  show ?case by (intro exI[of _ "[]"]) (simp split: option.splits)
next
  case (2 oid media total_size events downloaded w)
  then show ?case by simp
next
  case (3 oid media total_size chunk events downloaded w)
  show ?case
  proof (cases "active_operations w oid")
    case None
    then show ?thesis by (intro exI[of _ "[]"]) simp
  next
    case (Some a)
    show ?thesis
    proof (cases "cancelled a")
      case True
      with Some show ?thesis
        by (intro exI[of _ "[]"]) (auto simp: os_remove_def split: option.splits)
    next
      case False
      show ?thesis
      proof (cases "total_size = 0")
        case True
        with Some False show ?thesis by (intro exI[of _ "[]"]) (simp add: Let_def)
      next
        case nz: False
        let ?w' = "file_write w media chunk"
        let ?d' = "downloaded + length chunk"
        let ?w'' = "update_progress_message (int ?d') total_size ?w'"
        let ?r = "download_chunks oid media total_size events ?d' ?w''"
        have eq: "download_chunks oid media total_size (Chunk chunk # events) downloaded w = ?r"
          using Some False nz by (simp add: Let_def)
        from "3.IH"[OF Some False refl refl nz] obtain ds where all:
          "progress_reports (snd ?r) = progress_reports ?w'' @ map (\<lambda>k. (int k, total_size)) ds
           \<and> sorted ds \<and> (\<forall>k \<in> set ds. ?d' \<le> k) \<and> (ds \<noteq> [] \<longrightarrow> total_size \<noteq> 0)
           \<and> (fst ?r = None \<longrightarrow> length ds = length (chunks_of events)
              \<and> (ds \<noteq> [] \<longrightarrow> last ds = ?d' + length (concat (chunks_of events))))" ..
        then have ds1: "progress_reports (snd ?r)
              = progress_reports w @ map (\<lambda>k. (int k, total_size)) (?d' # ds)"
          and ds2: "sorted (?d' # ds)"
          and ds3: "\<forall>k \<in> set (?d' # ds). downloaded \<le> k"
          and ds4: "fst ?r = None \<longrightarrow> length (?d' # ds) = length (chunks_of (Chunk chunk # events))
              \<and> last (?d' # ds) = downloaded + length (concat (chunks_of (Chunk chunk # events)))"
          by (auto simp: update_progress_message_def file_write_def)
        have "progress_reports (snd ?r) = progress_reports w @ map (\<lambda>k. (int k, total_size)) (?d' # ds)
           \<and> sorted (?d' # ds) \<and> (\<forall>k \<in> set (?d' # ds). downloaded \<le> k)
           \<and> (?d' # ds \<noteq> [] \<longrightarrow> total_size \<noteq> 0)
           \<and> (fst ?r = None \<longrightarrow> length (?d' # ds) = length (chunks_of (Chunk chunk # events))
              \<and> (?d' # ds \<noteq> [] \<longrightarrow> last (?d' # ds) = downloaded + length (concat (chunks_of (Chunk chunk # events)))))"
          using ds1 ds2 ds3 ds4 nz by blast
        then show ?thesis unfolding eq by (rule exI[of _ "?d' # ds"])
      qed
    qed
  qed
next
  case (4 oid media total_size m events downloaded w)
  show ?case by (intro exI[of _ "[]"]) simp
qed

lemma download_chunks_file:
  assumes "files w media = Some old"
      and "fst (download_chunks oid media total_size events d w) = None"
  shows "files (snd (download_chunks oid media total_size events d w)) media
           = Some (old @ concat (chunks_of events))"
  using assms
proof (induction oid media total_size events d w arbitrary: old rule: download_chunks.induct)
  case (1 oid media total_size downloaded w)
  then show ?case by simp
next
  case (2 oid media total_size events downloaded w)
  then show ?case by simp
next
  case (3 oid media total_size chunk events downloaded w)
  from "3.prems"(2) obtain a where a: "active_operations w oid = Some a" "\<not> cancelled a"
      "total_size \<noteq> 0"
    by (auto simp: Let_def split: option.splits if_splits prod.splits)
  let ?w' = "file_write w media chunk"
  let ?d' = "downloaded + length chunk"
  let ?w'' = "update_progress_message (int ?d') total_size ?w'"
  have eq: "download_chunks oid media total_size (Chunk chunk # events) downloaded w
             = download_chunks oid media total_size events ?d' ?w''"
    using a by (simp add: Let_def)
  have f: "files ?w'' media = Some (old @ chunk)"
    using "3.prems"(1) by (simp add: file_write_def update_progress_message_def)
  from "3.IH"[OF a(1,2) refl refl a(3) f] "3.prems"(2) show ?case
    unfolding eq by simp
next
  case (4 oid media total_size m events downloaded w)
  then show ?case by simp
qed

lemma download_chunks_no_error:
  "fst (download_chunks oid media total_size events d w) = None \<Longrightarrow> Stream_error m \<notin> set events"
proof (induction oid media total_size events d w rule: download_chunks.induct)
  case (3 oid media total_size chunk events downloaded w)
  from "3.prems" obtain a where a: "active_operations w oid = Some a" "\<not> cancelled a"
      "total_size \<noteq> 0"
    by (auto simp: Let_def split: option.splits if_splits prod.splits)
  from "3.IH"[OF a(1,2) refl refl a(3)] "3.prems" a show ?case by (simp add: Let_def)
qed simp_all

text \<open>A body that is not encoded and arrives whole has the length its header announces.\<close>

lemma limit_body_total:
  "\<forall>m. Stream_error m \<notin> set (limit_body remaining events) \<Longrightarrow>
     length (concat (chunks_of (limit_body remaining events))) = remaining"
  by (induction remaining events rule: limit_body.induct) (auto split: if_splits)

lemma uploadFile_reports:
  "progress_reports (snd (uploadFile n file_path token folderId w)) = progress_reports w"
proof -
  have "progress_reports (snd (uploadFile_try n file_path token folderId w)) = progress_reports w"
    by (auto simp: uploadFile_try_def Let_def
        split: sum.splits option.splits post_outcome.splits json_body.splits)
  then show ?thesis
    by (cases "uploadFile_try n file_path token folderId w")
       (auto simp: uploadFile_def split: sum.splits exn.splits)
qed

lemma demo_ok_download:
  "fst (download_with_progress demo_ok_net ''op1'' (Some ''http://host/a/b.txt'') None
          (begin_upload demo_ok_net demo_update ''op1'' (demo_world {}))) = Inr ''b.txt''"
  "progress_reports (snd (download_with_progress demo_ok_net ''op1'' (Some ''http://host/a/b.txt'') None
          (begin_upload demo_ok_net demo_update ''op1'' (demo_world {})))) = [(2, 6), (4, 6), (6, 6)]"
  unfolding demo_ok_net_def
  by (simp_all add: demo_begin download_with_progress_def)
     (simp_all add: demo_net_def iter_chunked_def open_wb_def cannot_open_def file_write_def
        update_progress_message_def Let_def)

lemma demo_ok_body_reports:
  "progress_reports (snd (upload_body demo_ok_net demo_update ''op1''
          (begin_upload demo_ok_net demo_update ''op1'' (demo_world {''b.txt''}))))
     = [(2, 6), (4, 6), (6, 6), (0, 6), (6, 6)]"
  unfolding demo_ok_net_def
  apply (simp add: demo_begin upload_body_def upload_download_def demo_parse)
  apply (simp add: download_with_progress_def demo_update_def)
  apply (simp add: demo_net_def iter_chunked_def open_wb_def cannot_open_def edit_text_def
      file_write_def update_progress_message_def)
  apply (simp add: validate_file_size_def os_getsize_def MAX_FILE_SIZE_def validate_file_type_def
      splitext_ext_def basename_def lower_def lower_char_def lstrip_dots_def ALLOWED_EXTENSIONS_def
      Let_def)
  apply (simp add: upload_with_progress_def os_getsize_def update_progress_message_def
      edit_text_def Let_def)
  apply (simp add: uploadFile_def uploadFile_try_def get_server_def os_remove_def form_data_def
      demo_net_def demo_payload_def result_lines_def os_getsize_def update_progress_message_def
      edit_text_def)
  done

lemma demo_ok_operation_reports:
  "progress_reports (handle_upload_try demo_ok_net demo_update ''op1'' (demo_world {''b.txt''}))
     = [(2, 6), (4, 6), (6, 6), (0, 6), (6, 6)]"
  by (simp add: handle_upload_try_def upload_handlers_def demo_ok_body demo_ok_body_reports)

text \<open>
  Claim C4: the progress callback is invoked at most once per progress-update
  interval. The loop calls \<^verbatim>\<open>update_progress_message\<close> after every chunk it
  writes and reads no clock; \<^verbatim>\<open>PROGRESS_UPDATE_INTERVAL\<close> is imported by main.py
  and used nowhere. For a body of three chunks there are three reports, however
  close in time the chunks arrive.
\<close>

theorem download_reports_every_chunk:
  "chunks_of (iter_chunked \<lparr>http_status = 200, content_length = Length_header 6,
        compressed = False, body = [Chunk ''ab'', Chunk ''cd'', Chunk ''ef'']\<rparr>)
      = [''ab'', ''cd'', ''ef'']
   \<and> http_get demo_ok_net ''http://host/a/b.txt''
        = Inr \<lparr>http_status = 200, content_length = Length_header 6, compressed = False,
               body = [Chunk ''ab'', Chunk ''cd'', Chunk ''ef'']\<rparr>
   \<and> progress_reports (snd (download_with_progress demo_ok_net ''op1''
        (Some ''http://host/a/b.txt'') None
        (begin_upload demo_ok_net demo_update ''op1'' (demo_world {})))) = [(2, 6), (4, 6), (6, 6)]"
  by (simp add: demo_ok_download) (simp add: demo_ok_net_def demo_net_def iter_chunked_def)

lemma demo_gzip_download:
  "fst (download_with_progress demo_gzip_net ''op1'' (Some ''http://host/a/b.txt'') None
          (begin_upload demo_gzip_net demo_update ''op1'' (demo_world {}))) = Inr ''b.txt''"
  "progress_reports (snd (download_with_progress demo_gzip_net ''op1''
          (Some ''http://host/a/b.txt'') None
          (begin_upload demo_gzip_net demo_update ''op1'' (demo_world {})))) = [(6, 26)]"
  by (simp_all add: download_with_progress_def demo_gzip_net_def begin_upload_def demo_world_def
        demo_update_def demo_net_def iter_chunked_def open_wb_def cannot_open_def edit_text_def
        add_operation_def file_write_def update_progress_message_def Let_def)

text \<open>
  Claim C7, as the spec states it: the reports of one operation never decrease in
  bytes moved, and on success the last report's bytes equal the total. A completed
  \<^verbatim>\<open>/upload\<close> reports 2, 4, 6 bytes while it downloads and then 0 and 6 bytes
  while it uploads. And a server that sends a compressed body, 26 encoded bytes that
  decode to 6, gives a successful download whose only report is 6 of 26.
\<close>

theorem progress_reports_counterexample:
  "recorded_status (operations_table
        (handle_upload_try demo_ok_net demo_update ''op1'' (demo_world {''b.txt''}))) ''op1''
        = [''completed'']
   \<and> progress_reports (handle_upload_try demo_ok_net demo_update ''op1'' (demo_world {''b.txt''}))
        = [(2, 6), (4, 6), (6, 6), (0, 6), (6, 6)]
   \<and> fst (download_with_progress demo_gzip_net ''op1'' (Some ''http://host/a/b.txt'') None
          (begin_upload demo_gzip_net demo_update ''op1'' (demo_world {}))) = Inr ''b.txt''
   \<and> progress_reports (snd (download_with_progress demo_gzip_net ''op1''
          (Some ''http://host/a/b.txt'') None
          (begin_upload demo_gzip_net demo_update ''op1'' (demo_world {})))) = [(6, 26)]"
proof -
  have c: "recorded_status (operations_table
        (handle_upload_try demo_ok_net demo_update ''op1'' (demo_world {''b.txt''}))) ''op1''
        = [''completed'']"
    by (simp add: handle_upload_try_table demo_ok_body recorded_status_update recorded_status_add)
       (simp add: demo_world_def recorded_status_def)
  from c demo_ok_operation_reports demo_gzip_download show ?thesis by simp
qed

text \<open>
  Claim C7, amended: within one download from a URL the reports never decrease in
  bytes moved and all carry the Content-Length of the response as total; when the
  download succeeds there is one report per chunk and the last one's bytes are the
  number of bytes written to the output file, which is the total whenever the
  response has no Content-Encoding. Within one upload the reports never decrease, and
  when the upload succeeds the last report's bytes equal its total.
\<close>

theorem progress_reports_monotone:
  assumes "url \<noteq> []" and "http_get n url = Inr resp"
  shows "(\<exists>ds. progress_reports (snd (download_with_progress n oid (Some url) reply_message w))
              = progress_reports w @ map (\<lambda>k. (int k, header_total resp)) ds
          \<and> sorted ds
          \<and> (\<forall>media. fst (download_with_progress n oid (Some url) reply_message w) = Inr media \<longrightarrow>
                length ds = length (chunks_of (iter_chunked resp))
              \<and> files (snd (download_with_progress n oid (Some url) reply_message w)) media
                  = Some (concat (chunks_of (iter_chunked resp)))
              \<and> (ds \<noteq> [] \<longrightarrow>
                    last ds = length (concat (chunks_of (iter_chunked resp)))
                  \<and> (\<not> compressed resp \<longrightarrow> int (last ds) = header_total resp))))
       \<and> (\<exists>rs. progress_reports (snd (upload_with_progress n file_path oid token folderId w))
              = progress_reports w @ rs
          \<and> sorted (map fst rs)
          \<and> (\<forall>d. fst (upload_with_progress n file_path oid token folderId w) = Inr d \<longrightarrow>
                rs \<noteq> [] \<and> fst (last rs) = snd (last rs)))"
proof
  let ?r = "download_with_progress n oid (Some url) reply_message w"
  let ?media = "last (split_on CHR ''/'' url)"
  let ?w1 = "w\<lparr>files := (files w)(?media \<mapsto> [])\<rparr>"
  let ?ev = "iter_chunked resp"
  let ?c = "download_chunks oid ?media (header_total resp) ?ev 0 ?w1"
  show "\<exists>ds. progress_reports (snd ?r) = progress_reports w @ map (\<lambda>k. (int k, header_total resp)) ds
          \<and> sorted ds
          \<and> (\<forall>media. fst ?r = Inr media \<longrightarrow>
                length ds = length (chunks_of ?ev)
              \<and> files (snd ?r) media = Some (concat (chunks_of ?ev))
              \<and> (ds \<noteq> [] \<longrightarrow>
                    last ds = length (concat (chunks_of ?ev))
                  \<and> (\<not> compressed resp \<longrightarrow> int (last ds) = header_total resp)))"
  proof (cases "http_status resp = 200 \<and> (\<forall>h. content_length resp \<noteq> Bad_header h)
                \<and> \<not> cannot_open w ?media")
    case False
    then have "\<exists>e. ?r = (Inl e, w)"
      using assms
      by (auto simp: download_with_progress_def open_wb_def Let_def split: length_header.splits)
    then show ?thesis by (intro exI[of _ "[]"]) auto
  next
    case True
    then have d: "?r = (case ?c of (Some e, w2) \<Rightarrow> (Inl e, w2) | (None, w2) \<Rightarrow> (Inr ?media, w2))"
      using assms
      by (cases "content_length resp")
         (simp_all add: download_with_progress_def open_wb_def Let_def header_total_def)
    from download_chunks_reports[of oid ?media "header_total resp" ?ev 0 ?w1]
    obtain ds where all:
      "progress_reports (snd ?c) = progress_reports ?w1 @ map (\<lambda>k. (int k, header_total resp)) ds
       \<and> sorted ds \<and> (\<forall>k \<in> set ds. 0 \<le> k) \<and> (ds \<noteq> [] \<longrightarrow> header_total resp \<noteq> 0)
       \<and> (fst ?c = None \<longrightarrow> length ds = length (chunks_of ?ev)
          \<and> (ds \<noteq> [] \<longrightarrow> last ds = 0 + length (concat (chunks_of ?ev))))" ..
    then have ds1: "progress_reports (snd ?c) = progress_reports w @ map (\<lambda>k. (int k, header_total resp)) ds"
      and ds2: "sorted ds"
      and nz: "ds \<noteq> [] \<longrightarrow> header_total resp \<noteq> 0"
      and ds3: "fst ?c = None \<longrightarrow> length ds = length (chunks_of ?ev)
          \<and> (ds \<noteq> [] \<longrightarrow> last ds = length (concat (chunks_of ?ev)))"
      by simp_all
    have fl: "fst ?c = None \<longrightarrow> files (snd ?c) ?media = Some (concat (chunks_of ?ev))"
      using download_chunks_file[of ?w1 ?media "[]" oid "header_total resp" ?ev 0] by simp
    have whole: "int (length (concat (chunks_of ?ev))) = header_total resp"
      if ok: "fst ?c = None" and some: "ds \<noteq> []" and plain: "\<not> compressed resp"
    proof -
      from nz some obtain l where l: "content_length resp = Length_header l"
        by (cases "content_length resp") (auto simp: header_total_def)
      with plain have ev: "?ev = limit_body l (body resp)" by (simp add: iter_chunked_def)
      have "\<forall>m. Stream_error m \<notin> set ?ev"
        using download_chunks_no_error[OF ok] by blast
      from limit_body_total[OF this[unfolded ev]] l show ?thesis
        by (simp add: ev header_total_def)
    qed
    obtain rc wc where c: "?c = (rc, wc)" by (cases ?c)
    have "progress_reports (snd ?r) = progress_reports w @ map (\<lambda>k. (int k, header_total resp)) ds
          \<and> sorted ds
          \<and> (\<forall>media. fst ?r = Inr media \<longrightarrow>
                length ds = length (chunks_of ?ev)
              \<and> files (snd ?r) media = Some (concat (chunks_of ?ev))
              \<and> (ds \<noteq> [] \<longrightarrow>
                    last ds = length (concat (chunks_of ?ev))
                  \<and> (\<not> compressed resp \<longrightarrow> int (last ds) = header_total resp)))"
    proof (cases rc)
      case None
      with c d have r: "?r = (Inr ?media, wc)" by simp
      from None c have ok: "fst ?c = None" by simp
      from ok ds1 ds2 ds3 fl whole c show ?thesis unfolding r by simp
    next
      case (Some e)
      with c d have r: "?r = (Inl e, wc)" by simp
      from Some c ds1 ds2 show ?thesis unfolding r by simp
    qed
    then show ?thesis by (rule exI[of _ ds])
  qed
next
  let ?u = "upload_with_progress n file_path oid token folderId w"
  show "\<exists>rs. progress_reports (snd ?u) = progress_reports w @ rs
          \<and> sorted (map fst rs)
          \<and> (\<forall>d. fst ?u = Inr d \<longrightarrow> rs \<noteq> [] \<and> fst (last rs) = snd (last rs))"
  proof (cases "os_getsize w file_path")
    case (Inl e)
    then show ?thesis by (intro exI[of _ "[]"]) (simp add: upload_with_progress_def)
  next
    case (Inr n0)
    let ?w1 = "update_progress_message 0 (int n0) w"
    obtain ur w2 where u: "uploadFile n file_path token folderId ?w1 = (ur, w2)"
      by (cases "uploadFile n file_path token folderId ?w1")
    have p2: "progress_reports w2 = progress_reports w @ [(0, int n0)]"
      using uploadFile_reports[of n file_path token folderId ?w1] u
      by (simp add: update_progress_message_def)
    show ?thesis
    proof (cases ur)
      case (Inl e)
      with Inr u p2 show ?thesis
        by (intro exI[of _ "[(0, int n0)]"]) (simp add: upload_with_progress_def)
    next
      case r: (Inr resp)
      show ?thesis
      proof (cases "os_getsize w2 file_path")
        case (Inl e)
        with Inr u p2 r show ?thesis
          by (intro exI[of _ "[(0, int n0)]"]) (simp add: upload_with_progress_def)
      next
        case n1: (Inr n1)
        with Inr u p2 r show ?thesis
          by (intro exI[of _ "[(0, int n0), (int n1, int n1)]"])
             (simp add: upload_with_progress_def update_progress_message_def)
      qed
    qed
  qed
qed

theorem progress_reports_monotone_witness:
  "''http://host/a/b.txt'' \<noteq> []
   \<and> http_get demo_ok_net ''http://host/a/b.txt''
        = Inr \<lparr>http_status = 200, content_length = Length_header 6, compressed = False,
               body = [Chunk ''ab'', Chunk ''cd'', Chunk ''ef'']\<rparr>
   \<and> fst (download_with_progress demo_ok_net ''op1'' (Some ''http://host/a/b.txt'') None
          (begin_upload demo_ok_net demo_update ''op1'' (demo_world {}))) = Inr ''b.txt''
   \<and> files (snd (download_with_progress demo_ok_net ''op1'' (Some ''http://host/a/b.txt'') None
          (begin_upload demo_ok_net demo_update ''op1'' (demo_world {})))) ''b.txt'' = Some ''abcdef''
   \<and> last (progress_reports (snd (download_with_progress demo_ok_net ''op1''
          (Some ''http://host/a/b.txt'') None
          (begin_upload demo_ok_net demo_update ''op1'' (demo_world {}))))) = (6, 6)"
proof -
  have u: "''http://host/a/b.txt'' \<noteq> []" by simp
  have g: "http_get demo_ok_net ''http://host/a/b.txt''
        = Inr \<lparr>http_status = 200, content_length = Length_header 6, compressed = False,
               body = [Chunk ''ab'', Chunk ''cd'', Chunk ''ef'']\<rparr>"
    by (simp add: demo_ok_net_def demo_net_def)
  from progress_reports_monotone[OF u g, of "''op1''" None
         "begin_upload demo_ok_net demo_update ''op1'' (demo_world {})"]
  have "files (snd (download_with_progress demo_ok_net ''op1'' (Some ''http://host/a/b.txt'') None
          (begin_upload demo_ok_net demo_update ''op1'' (demo_world {})))) ''b.txt'' = Some ''abcdef''"
    using demo_ok_download(1) by (auto simp: iter_chunked_def)
  with u g demo_ok_download show ?thesis by simp
qed


section \<open>uploadFile when the backend reports an error\<close>

text \<open>
  Claim C10, as stated: when the request succeeds and the body reports a status that
  is not ok, the function raises a backend-API error and the local file no longer
  exists. The \<^verbatim>\<open>GoFileAPIError\<close> is raised inside the \<^verbatim>\<open>try\<close> and caught by
  its \<^verbatim>\<open>except Exception\<close> clause, which raises a \<^verbatim>\<open>GoFileError\<close>; and a file
  the operating system refuses to remove is still there, since that failure is only
  logged.
\<close>

theorem uploadFile_backend_error_counterexample:
  "fst (uploadFile demo_error_net ''b.txt'' None None (demo_file_world {''b.txt''}))
     = Inl (GoFileError ''Upload failed: GoFile API error: notFound'')
   \<and> files (snd (uploadFile demo_error_net ''b.txt'' None None (demo_file_world {''b.txt''})))
        ''b.txt'' = Some ''abcdef''"
  by (simp add: uploadFile_def uploadFile_try_def demo_error_net_def demo_net_def get_server_def
      demo_file_world_def demo_world_def os_remove_def form_data_def)

text \<open>
  Claim C10, amended: when the server lookup, the opening of the file and the request
  succeed and the body reports a status that is not ok, the function raises an error
  of the \<^verbatim>\<open>GoFileError\<close> family, and the removal of the local file was attempted
  before the status was read: the state it leaves is the state right after the
  removal attempt. The file is gone unless the operating system refused the removal.
\<close>

theorem uploadFile_backend_error:
  assumes "get_server n = Inr server" and "files w file_path = Some content"
      and "post_reply n (''https://'' @ server @ ''.gofile.io/uploadFile'') content
             (form_data token folderId) = Post_ok (Json_object (Some s) dat)"
      and "s \<noteq> ''ok''"
  shows "(\<exists>e. fst (uploadFile n file_path token folderId w) = Inl e \<and> is_GoFileError e)
       \<and> snd (uploadFile n file_path token folderId w) = snd (os_remove w file_path)
       \<and> (file_path \<notin> protected w \<longrightarrow>
            files (snd (uploadFile n file_path token folderId w)) file_path = None)
       \<and> (file_path \<in> protected w \<longrightarrow>
            files (snd (uploadFile n file_path token folderId w)) file_path = Some content)"
proof -
  have "\<exists>e. uploadFile_try n file_path token folderId w
                      = (Inl (GoFileAPIError e), snd (os_remove w file_path))"
    using assms by (cases "contains ''error-'' s") (simp_all add: uploadFile_try_def Let_def)
  then obtain e where t: "uploadFile_try n file_path token folderId w
                      = (Inl (GoFileAPIError e), snd (os_remove w file_path))" ..
  then have u: "uploadFile n file_path token folderId w
          = (Inl (GoFileError (''Upload failed: '' @ e)), snd (os_remove w file_path))"
    by (simp add: uploadFile_def)
  show ?thesis unfolding u using assms(2) by (simp add: os_remove_def)
qed

theorem uploadFile_backend_error_witness:
  "get_server demo_error_net = Inr ''store1''
   \<and> files (demo_file_world {}) ''b.txt'' = Some ''abcdef''
   \<and> post_reply demo_error_net (''https://'' @ ''store1'' @ ''.gofile.io/uploadFile'') ''abcdef''
        (form_data None None) = Post_ok (Json_object (Some ''error-notFound'') None)
   \<and> ''error-notFound'' \<noteq> ''ok''
   \<and> (\<exists>e. fst (uploadFile demo_error_net ''b.txt'' None None (demo_file_world {})) = Inl e
          \<and> is_GoFileError e)
   \<and> ''b.txt'' \<notin> protected (demo_file_world {})
   \<and> files (snd (uploadFile demo_error_net ''b.txt'' None None (demo_file_world {}))) ''b.txt'' = None"
proof -
  have a: "get_server demo_error_net = Inr ''store1''"
    by (simp add: get_server_def demo_error_net_def demo_net_def)
  have b: "files (demo_file_world {}) ''b.txt'' = Some ''abcdef''"
    by (simp add: demo_file_world_def)
  have c: "post_reply demo_error_net (''https://'' @ ''store1'' @ ''.gofile.io/uploadFile'') ''abcdef''
        (form_data None None) = Post_ok (Json_object (Some ''error-notFound'') None)"
    by (simp add: demo_error_net_def demo_net_def)
  have d: "''error-notFound'' \<noteq> ''ok''" by simp
  have p: "''b.txt'' \<notin> protected (demo_file_world {})"
    by (simp add: demo_file_world_def demo_world_def)
  from uploadFile_backend_error[OF a b c d] have
    "(\<exists>e. fst (uploadFile demo_error_net ''b.txt'' None None (demo_file_world {})) = Inl e
          \<and> is_GoFileError e)"
    and "''b.txt'' \<notin> protected (demo_file_world {}) \<longrightarrow>
      files (snd (uploadFile demo_error_net ''b.txt'' None None (demo_file_world {}))) ''b.txt'' = None"
    using b by blast+
  with a b c d p show ?thesis by blast
qed


end
